theory Spec2Isabelle
  imports Main "HOL-Library.AList" "HOL-Library.Sublist"
begin

section \<open>Python strings\<close>

text \<open>
  A Python \<open>str\<close> is a sequence of Unicode code points. A code point is a natural
  number; \<open>S\<close> embeds an ASCII literal of the source.
\<close>

type_synonym pychar = nat
type_synonym pystr = "pychar list"

definition S :: "string \<Rightarrow> pystr" where
  "S cs = map of_char cs"

text \<open>
  What Python does on ASCII is written out. The tables of the Unicode database for the
  code points from 128 on belong to the Python runtime, not to this repository; they are
  a parameter.
\<close>

record unicode =
  u_alnum :: "pychar \<Rightarrow> bool"
  u_decimal :: "pychar \<Rightarrow> bool"
  u_numeric :: "pychar \<Rightarrow> bool"
  u_lower :: "pychar \<Rightarrow> pystr"
  u_caseeq :: "pychar \<Rightarrow> pychar \<Rightarrow> bool"

text \<open>The tables of a runtime that knows no code point beyond ASCII.\<close>

definition ascii_only :: unicode where
  "ascii_only = \<lparr>u_alnum = (\<lambda>c. False), u_decimal = (\<lambda>c. False), u_numeric = (\<lambda>c. False),
     u_lower = (\<lambda>c. [c]), u_caseeq = (\<lambda>p c. p = c)\<rparr>"

definition ascii_lower :: "pychar \<Rightarrow> pychar" where
  "ascii_lower c = (if 65 \<le> c \<and> c \<le> 90 then c + 32 else c)"

text \<open>\<open>str.lower()\<close>\<close>

definition lower :: "unicode \<Rightarrow> pystr \<Rightarrow> pystr" where
  "lower U s = concat (map (\<lambda>c. if c < 128 then [ascii_lower c] else u_lower U c) s)"

text \<open>\<open>str.isspace()\<close> of one character, which is also the class \<open>\s\<close> of \<open>re\<close>.\<close>

definition is_space :: "pychar \<Rightarrow> bool" where
  "is_space c = ((9 \<le> c \<and> c \<le> 13) \<or> (28 \<le> c \<and> c \<le> 32) \<or> c = 133 \<or> c = 160 \<or> c = 5760
     \<or> (8192 \<le> c \<and> c \<le> 8202) \<or> c = 8232 \<or> c = 8233 \<or> c = 8239 \<or> c = 8287 \<or> c = 12288)"

text \<open>The class \<open>\w\<close> of \<open>re\<close>: alphanumeric or underscore.\<close>

definition is_word :: "unicode \<Rightarrow> pychar \<Rightarrow> bool" where
  "is_word U c = (if c < 128
     then (48 \<le> c \<and> c \<le> 57) \<or> (65 \<le> c \<and> c \<le> 90) \<or> c = 95 \<or> (97 \<le> c \<and> c \<le> 122)
     else u_alnum U c)"

text \<open>The class \<open>\d\<close> of \<open>re\<close>.\<close>

definition is_decimal :: "unicode \<Rightarrow> pychar \<Rightarrow> bool" where
  "is_decimal U c = (if c < 128 then 48 \<le> c \<and> c \<le> 57 else u_decimal U c)"

text \<open>\<open>str.isnumeric()\<close>: at least one character, and all of them numeric.\<close>

definition isnumeric :: "unicode \<Rightarrow> pystr \<Rightarrow> bool" where
  "isnumeric U s = (s \<noteq> [] \<and> list_all (\<lambda>c. if c < 128 then 48 \<le> c \<and> c \<le> 57 else u_numeric U c) s)"

text \<open>\<open>str.strip()\<close>\<close>

definition strip :: "pystr \<Rightarrow> pystr" where
  "strip s = rev (dropWhile is_space (rev (dropWhile is_space s)))"

text \<open>\<open>str.startswith\<close>, \<open>str.endswith\<close> with one string and with a tuple of strings.\<close>

definition startswith :: "pystr \<Rightarrow> pystr \<Rightarrow> bool" where
  "startswith s p = (take (length p) s = p)"

definition endswith :: "pystr \<Rightarrow> pystr \<Rightarrow> bool" where
  "endswith s e = (length e \<le> length s \<and> drop (length s - length e) s = e)"

definition endswith_any :: "pystr \<Rightarrow> pystr list \<Rightarrow> bool" where
  "endswith_any s es = list_ex (endswith s) es"

text \<open>\<open>str.replace(c, '')\<close> for a one-character \<open>c\<close>.\<close>

definition remove_char :: "pychar \<Rightarrow> pystr \<Rightarrow> pystr" where
  "remove_char c s = filter (\<lambda>d. d \<noteq> c) s"

section \<open>utils.py\<close>

definition audio_extensions :: "string list" where
  "audio_extensions =
    [''3gp'', ''aa'', ''aac'', ''aax'', ''act'', ''aiff'', ''alac'', ''amr'', ''ape'', ''au'', ''awb'',
     ''dct'', ''dss'', ''dvf'', ''8svx'', ''flac'', ''gsm'', ''iklax'', ''ivs'', ''m4a'', ''m4b'', ''m4p'',
     ''mmf'', ''mp3'', ''mpc'', ''msv'', ''nmf'', ''ogg'', ''oga'', ''cda'', ''mogg'', ''opus'', ''ra'',
     ''rm'', ''raw'', ''rf64'', ''sln'', ''tta'', ''voc'', ''vox'', ''wav'', ''wma'', ''wv'', ''webm'']"

section \<open>Organizer.get_music_addrs\<close>

text \<open>
  \<open>os.path.join(dirname, file)\<close> on POSIX, for the two arguments the walk passes.
\<close>

definition os_path_join :: "pystr \<Rightarrow> pystr \<Rightarrow> pystr" where
  "os_path_join a b =
    (if startswith b (S ''/'') then b
     else if a = [] \<or> endswith a (S ''/'') then a @ b
     else a @ S ''/'' @ b)"

text \<open>
  The directory walk is the filesystem's answer: the list of \<open>(dirname, filenames)\<close> that
  \<open>os.walk\<close> yields, in its order. The cache is the content of \<open>addrs.csv\<close>, if the file
  exists. The function returns the addresses and the new content of the cache.
\<close>

definition is_audio_name :: "unicode \<Rightarrow> pystr \<Rightarrow> bool" where
  "is_audio_name U file = endswith_any (lower U file) (map S audio_extensions)"

definition get_music_addrs ::
  "unicode \<Rightarrow> (pystr \<times> pystr list) list \<Rightarrow> pystr list option \<Rightarrow> bool \<Rightarrow> pystr list \<times> pystr list option" where
  "get_music_addrs U walk cache from_cache =
    (let addrs = concat (map (\<lambda>(dirname, filenames).
                    map (os_path_join dirname) (filter (is_audio_name U) filenames)) walk)
     in case cache of
          None \<Rightarrow> (addrs, Some addrs)
        | Some cached \<Rightarrow> if \<not> from_cache then (addrs, Some addrs) else (cached, cache))"

section \<open>Regular expressions as \<open>re\<close> matches them\<close>

text \<open>
  The patterns of this program are built from character tests, sequence, alternation,
  the optional group and the greedy repetition of a character class with bounds.
  \<open>matches r s\<close> lists what is left of \<open>s\<close> after each way of matching \<open>r\<close> at the
  start of \<open>s\<close>, in the order in which a backtracking matcher tries them: the first
  alternative before the second, the longer repetition before the shorter, the group
  before its omission. The match that \<open>re\<close> reports is the first one.
\<close>

datatype rx =
    Eps
  | Cls "pychar \<Rightarrow> bool"
  | Seq rx rx
  | Alt rx rx
  | Opt rx
  | Rep "pychar \<Rightarrow> bool" nat "nat option"

fun matches :: "rx \<Rightarrow> pystr \<Rightarrow> pystr list" where
  "matches Eps s = [s]"
| "matches (Cls p) s = (case s of [] \<Rightarrow> [] | c # cs \<Rightarrow> if p c then [cs] else [])"
| "matches (Seq a b) s = concat (map (matches b) (matches a s))"
| "matches (Alt a b) s = matches a s @ matches b s"
| "matches (Opt a) s = matches a s @ [s]"
| "matches (Rep p lo hi) s =
    (let n = length (takeWhile p s);
         m = (case hi of None \<Rightarrow> n | Some h \<Rightarrow> min h n)
     in map (\<lambda>k. drop k s) (rev [lo..<Suc m]))"

definition match_at :: "rx \<Rightarrow> pystr \<Rightarrow> pystr option" where
  "match_at r s = (case matches r s of [] \<Rightarrow> None | t # _ \<Rightarrow> Some t)"

text \<open>The strings a pattern matches in full.\<close>

fun lang :: "rx \<Rightarrow> pystr set" where
  "lang Eps = {[]}"
| "lang (Cls p) = {[c] | c. p c}"
| "lang (Seq a b) = {x @ y | x y. x \<in> lang a \<and> y \<in> lang b}"
| "lang (Alt a b) = lang a \<union> lang b"
| "lang (Opt a) = insert [] (lang a)"
| "lang (Rep p lo hi) =
    {x. list_all p x \<and> lo \<le> length x \<and> (case hi of None \<Rightarrow> True | Some h \<Rightarrow> length x \<le> h)}"

text \<open>
  A literal character under \<open>re.IGNORECASE\<close>: ASCII letters match in both cases; what
  else is equal up to case is the runtime's table.
\<close>

definition ci :: "unicode \<Rightarrow> pychar \<Rightarrow> pychar \<Rightarrow> bool" where
  "ci U p c = (if p < 128 \<and> c < 128 then ascii_lower p = ascii_lower c else u_caseeq U p c)"

definition word :: "unicode \<Rightarrow> pystr \<Rightarrow> rx" where
  "word U w = foldr (\<lambda>p r. Seq (Cls (ci U p)) r) w Eps"

text \<open>\<open>re.search\<close>: is there a position where the pattern matches?\<close>

fun search :: "rx \<Rightarrow> pystr \<Rightarrow> bool" where
  "search r [] = (matches r [] \<noteq> [])"
| "search r (c # cs) = (matches r (c # cs) \<noteq> [] \<or> search r cs)"

section \<open>utils.remove_websites_and_tags\<close>

text \<open>
  The pattern of the source, part by part:
  \<^verbatim>\<open>(((telegram[\s]?)?(channel)?)|((<kanal>[\s]?)?(<telegram>)))?\<close> (the two words in
  angle brackets are the Persian words of the source, given here by their code points),
  \<^verbatim>\<open>[\-@:%_\+.~#?&//=\s\(\)\[\]\*^$!{}<>\"\']*\<close>,
  \<^verbatim>\<open>([\w@\-%\+.~#?&//=]{1,256}\.(cc|me|ir|in|net|info|org|biz|com|us|pro|ws)[\w@\-:%\+.~#?&//=]*|@[\w@\-:%\+.~#?&//=]{1,256})\<close>,
  and the second class again.
\<close>

definition kanal :: pystr where
  "kanal = [1705, 1575, 1606, 1575, 1604]"

definition telegram_fa :: pystr where
  "telegram_fa = [1578, 1604, 1711, 1585, 1575, 1605]"

definition label_rx :: "unicode \<Rightarrow> rx" where
  "label_rx U =
    Opt (Alt (Seq (Opt (Seq (word U (S ''telegram'')) (Opt (Cls is_space)))) (Opt (word U (S ''channel''))))
             (Seq (Opt (Seq (word U kanal) (Opt (Cls is_space)))) (word U telegram_fa)))"

definition noise :: "pychar \<Rightarrow> bool" where
  "noise c = (c \<in> set (S ''-@:%_+.~#?&//=()[]*^$!{}<>\"'') \<or> c = 39 \<or> is_space c)"

definition url_head :: "unicode \<Rightarrow> pychar \<Rightarrow> bool" where
  "url_head U c = (is_word U c \<or> c \<in> set (S ''@-%+.~#?&//=''))"

definition url_tail :: "unicode \<Rightarrow> pychar \<Rightarrow> bool" where
  "url_tail U c = (is_word U c \<or> c \<in> set (S ''@-:%+.~#?&//=''))"

definition tlds :: "string list" where
  "tlds = [''cc'', ''me'', ''ir'', ''in'', ''net'', ''info'', ''org'', ''biz'', ''com'', ''us'', ''pro'', ''ws'']"

definition tld_rx :: "unicode \<Rightarrow> rx" where
  "tld_rx U = foldr (\<lambda>w r. Alt (word U (S w)) r) (butlast tlds) (word U (S (last tlds)))"

definition token_rx :: "unicode \<Rightarrow> rx" where
  "token_rx U =
    Alt (Seq (Rep (url_head U) 1 (Some 256))
          (Seq (Cls (\<lambda>c. c = 46)) (Seq (tld_rx U) (Rep (url_tail U) 0 None))))
        (Seq (Cls (\<lambda>c. c = 64)) (Rep (url_tail U) 1 (Some 256)))"

definition ad_rx :: "unicode \<Rightarrow> rx" where
  "ad_rx U = Seq (label_rx U) (Seq (Rep noise 0 None) (Seq (token_rx U) (Rep noise 0 None)))"

text \<open>
  \<open>re.sub(pattern, repl, s)\<close>: scan from the left; where the pattern matches, put
  \<open>repl\<close> for the match and go on behind it; otherwise keep the character. No pattern
  that this program substitutes matches the empty string (lemmas \<open>ad_rx_nonempty\<close> and
  \<open>word_nonempty\<close>), so the last branch of the conditional is never taken and nothing is
  substituted at the end of the string.
\<close>

function re_sub :: "rx \<Rightarrow> pystr \<Rightarrow> pystr \<Rightarrow> pystr" where
  "re_sub r repl [] = []"
| "re_sub r repl (c # cs) =
    (case match_at r (c # cs) of
       None \<Rightarrow> c # re_sub r repl cs
     | Some t \<Rightarrow> if length t < length (c # cs) then repl @ re_sub r repl t else c # re_sub r repl cs)"
  by pat_completeness auto
termination
  by (relation "measure (\<lambda>(r, repl, s). length s)") auto

definition sub_ads :: "unicode \<Rightarrow> pystr \<Rightarrow> pystr" where
  "sub_ads U s = re_sub (ad_rx U) (S '' '') s"

text \<open>
  One string of the column: substitute, \<open>strip()\<close>, and \<open>None\<close> for the empty string.
\<close>

definition strip_ads :: "unicode \<Rightarrow> pystr \<Rightarrow> pystr option" where
  "strip_ads U s = (let r = strip (sub_ads U s) in if r = [] then None else Some r)"

text \<open>A string has a token when the website or handle part of the pattern matches one of its substrings.\<close>

definition has_tok :: "unicode \<Rightarrow> pystr \<Rightarrow> bool" where
  "has_tok U s = (\<exists>p b q. s = p @ b @ q \<and> b \<in> lang (token_rx U))"

section \<open>Tables\<close>

text \<open>
  A cell of a table holds \<open>None\<close> (or NaN, which the program does not tell apart: both
  are null), a string, or one of the two other objects that the tag reader can put there:
  an empty list, and the dictionary of the tags that have no column of their own.
\<close>

datatype cell = Null | Str pystr | EmptyList | Dict "(pystr \<times> cell) list"

type_synonym pydict = "(pystr \<times> cell) list"
type_synonym series = "cell list"
type_synonym mask = "bool list"

text \<open>
  A \<open>DataFrame\<close> is the list of its rows, each with its index label; a row is the
  dictionary from the column names to the cells, in the order of the columns. All
  columns of this program are created with the frame, so a row has every column.
\<close>

type_synonym frame = "(nat \<times> pydict) list"

definition get :: "pydict \<Rightarrow> pystr \<Rightarrow> cell" where
  "get r k = (case map_of r k of None \<Rightarrow> Null | Some v \<Rightarrow> v)"

definition from_records :: "pydict list \<Rightarrow> frame" where
  "from_records rows = zip [0..<length rows] rows"

definition to_dict_records :: "frame \<Rightarrow> pydict list" where
  "to_dict_records df = map snd df"

text \<open>\<open>df[k]\<close> and \<open>df[k] = vs\<close>\<close>

definition col :: "frame \<Rightarrow> pystr \<Rightarrow> series" where
  "col df k = map (\<lambda>(i, r). get r k) df"

definition set_col :: "pystr \<Rightarrow> series \<Rightarrow> frame \<Rightarrow> frame" where
  "set_col k vs df = map (\<lambda>((i, r), v). (i, AList.update k v r)) (zip df vs)"

text \<open>\<open>df.drop(columns=ks)\<close> returns a new frame and leaves \<open>df\<close> as it is.\<close>

definition drop_columns :: "pystr list \<Rightarrow> frame \<Rightarrow> frame" where
  "drop_columns ks df = map (\<lambda>(i, r). (i, filter (\<lambda>(k, v). k \<notin> set ks) r)) df"

text \<open>\<open>df.loc[labels]\<close> and \<open>df.drop(labels)\<close>\<close>

definition loc :: "nat list \<Rightarrow> frame \<Rightarrow> frame" where
  "loc labels df = concat (map (\<lambda>l. filter (\<lambda>(i, r). i = l) df) labels)"

definition drop_rows :: "nat list \<Rightarrow> frame \<Rightarrow> frame" where
  "drop_rows labels df = filter (\<lambda>(i, r). i \<notin> set labels) df"

text \<open>
  Series of one frame have the same index, so the operations between them go position
  by position: \<open>pd.isnull(s)\<close>, \<open>a | b\<close>, \<open>a.fillna(b)\<close>, \<open>s[m] = None\<close>, and
  \<open>s[m]\<close> put back into its column (the rows left out become null). A method of
  \<open>s.str\<close> gives null on a cell that is no string.
\<close>

definition isnull :: "series \<Rightarrow> mask" where
  "isnull s = map (\<lambda>v. v = Null) s"

definition mask_or :: "mask \<Rightarrow> mask \<Rightarrow> mask" where
  "mask_or a b = map (\<lambda>(x, y). x \<or> y) (zip a b)"

definition fillna :: "series \<Rightarrow> series \<Rightarrow> series" where
  "fillna a b = map (\<lambda>(x, y). if x = Null then y else x) (zip a b)"

definition set_none :: "series \<Rightarrow> mask \<Rightarrow> series" where
  "set_none s m = map (\<lambda>(v, b). if b then Null else v) (zip s m)"

definition keep_where :: "series \<Rightarrow> mask \<Rightarrow> series" where
  "keep_where s m = map (\<lambda>(v, b). if b then v else Null) (zip s m)"

definition str_map :: "(pystr \<Rightarrow> cell) \<Rightarrow> series \<Rightarrow> series" where
  "str_map f s = map (\<lambda>v. case v of Str x \<Rightarrow> f x | _ \<Rightarrow> Null) s"

text \<open>
  \<open>s.apply(lambda x: str(x).isnumeric())\<close>: \<open>str\<close> of a null cell is \<open>None\<close> or
  \<open>nan\<close>, of a list or dictionary it starts with a bracket; none of them is numeric.
\<close>

definition apply_str_isnumeric :: "unicode \<Rightarrow> series \<Rightarrow> mask" where
  "apply_str_isnumeric U s = map (\<lambda>v. case v of Str x \<Rightarrow> isnumeric U x | _ \<Rightarrow> False) s"

section \<open>utils.py on columns\<close>

definition remove_websites_and_tags :: "unicode \<Rightarrow> series \<Rightarrow> series" where
  "remove_websites_and_tags U data =
    str_map (\<lambda>x. case strip_ads U x of None \<Rightarrow> Null | Some r \<Rightarrow> Str r) data"

text \<open>
  \<open>mask_containing_regex\<close>: \<open>str.contains\<close> with \<open>re.IGNORECASE\<close>, and \<open>False\<close> where
  the cell is no string. The pattern is given by its test on one string.
\<close>

definition mask_containing_regex :: "series \<Rightarrow> (pystr \<Rightarrow> bool) \<Rightarrow> mask" where
  "mask_containing_regex data regex = map (\<lambda>v. case v of Str x \<Rightarrow> regex x | _ \<Rightarrow> False) data"

text \<open>
  The three patterns of \<open>generate_music_info\<close>.
  \<^verbatim>\<open>(unknown|^\d+$|\?)\<close>: \<open>^\d+$\<close> is a string of digits, with or without one line feed
  at its end.
  \<^verbatim>\<open>(unknown|various)\<close>.
  \<^verbatim>\<open>(unknown|single|music|motion|[\u0600-\u06FF]+)\<close>.
\<close>

definition digits_line :: "unicode \<Rightarrow> pystr \<Rightarrow> bool" where
  "digits_line U s =
    (takeWhile (is_decimal U) s \<noteq> [] \<and> dropWhile (is_decimal U) s \<in> {[], [10]})"

definition genre_regex :: "unicode \<Rightarrow> pystr \<Rightarrow> bool" where
  "genre_regex U s = (search (word U (S ''unknown'')) s \<or> digits_line U s \<or> 63 \<in> set s)"

definition albumartist_regex :: "unicode \<Rightarrow> pystr \<Rightarrow> bool" where
  "albumartist_regex U s = (search (word U (S ''unknown'')) s \<or> search (word U (S ''various'')) s)"

definition album_regex :: "unicode \<Rightarrow> pystr \<Rightarrow> bool" where
  "album_regex U s =
    (search (word U (S ''unknown'')) s \<or> search (word U (S ''single'')) s
     \<or> search (word U (S ''music'')) s \<or> search (word U (S ''motion'')) s
     \<or> list_ex (\<lambda>c. 1536 \<le> c \<and> c \<le> 1791) s)"

text \<open>
  The marker that is cut out of \<open>artist\<close>, as the source file spells it: an opening
  parenthesis, \<open>RF\<close>, the code points 226, 8222 and 162, a closing parenthesis.
\<close>

definition rf_marker :: pystr where
  "rf_marker = S ''(RF'' @ [226, 8222, 162] @ S '')''"

section \<open>Organizer: highlighting\<close>

definition highlighted_rows :: "frame \<Rightarrow> nat list" where
  "highlighted_rows musics =
    (let highlight_mask = mask_or (isnull (col musics (S ''artist''))) (isnull (col musics (S ''title'')))
     in map (\<lambda>((i, r), b). i) (filter (\<lambda>((i, r), b). b) (zip musics highlight_mask)))"

text \<open>
  \<open>_do_highlight\<close> returns the reordered table and the labels of the rows that the
  written file marks in red (none, and no style, when no row is highlighted).
\<close>

definition do_highlight :: "frame \<Rightarrow> frame \<times> nat list" where
  "do_highlight musics =
    (let highlighted = highlighted_rows musics
     in (loc highlighted musics @ drop_rows highlighted musics, highlighted))"

section \<open>Organizer.generate_music_info\<close>

datatype error = FileNotFoundError | KeyError | IndexError | EOFError | TypeError | AttributeError
  | JSONDecodeError | MutagenError

definition must_have_keys :: "string list" where
  "must_have_keys = [''title'', ''artist'', ''album'', ''albumartist'', ''genre'', ''date'', ''bpm'',
     ''tracknumber'', ''discnumber'']"

text \<open>
  What \<open>mutagen.File(file, easy=True)\<close> gives for a file it can read: the tags, each with
  its list of values, and the two strings that the program derives from the stream
  information, \<open>str(bitrate // 1000)\<close> and the length as \<open>mm:ss\<close> (the length is a
  floating-point number of seconds; the formatted string is taken as given).
\<close>

record audio =
  tags :: "(pystr \<times> pystr list) list"
  bitrate :: pystr
  length_mmss :: pystr

text \<open>\<open>v[0] if v else v\<close>\<close>

definition first_value :: "pystr list \<Rightarrow> cell" where
  "first_value v = (case v of [] \<Rightarrow> EmptyList | x # _ \<Rightarrow> Str x)"

definition music_record :: "pystr \<Rightarrow> audio \<Rightarrow> pydict" where
  "music_record file a =
    (let file_data = map (\<lambda>(k, v). (k, first_value v)) (tags a);
         named = map S (must_have_keys @ [''originaldate''])
     in [(S ''file'', Str file)]
        @ map (\<lambda>k. (k, get file_data k)) named
        @ [(S ''bitrate'', Str (bitrate a)),
           (S ''length'', Str (length_mmss a)),
           (S ''miscellaneous'', Dict (filter (\<lambda>(k, v). k \<notin> set named) file_data))])"

text \<open>The reading loop: a file that cannot be read (\<open>None\<close>) is skipped.\<close>

definition read_musics :: "(pystr \<Rightarrow> audio option) \<Rightarrow> pystr list \<Rightarrow> pydict list" where
  "read_musics reader addrs =
    concat (map (\<lambda>file. case reader file of None \<Rightarrow> [] | Some a \<Rightarrow> [music_record file a]) addrs)"

text \<open>
  The statements between the two \<open>to_excel\<close> calls, in their order. The result of
  \<open>musics.drop(columns=['originaldate'])\<close> is not assigned.
\<close>

definition consolidate_date :: "frame \<Rightarrow> frame" where
  "consolidate_date musics =
    (let musics1 = set_col (S ''date'')
           (str_map (\<lambda>x. Str (takeWhile (\<lambda>c. c \<noteq> 84) x))
              (fillna (col musics (S ''originaldate'')) (col musics (S ''date'')))) musics;
         dropped = drop_columns [S ''originaldate''] musics1
     in musics1)"

definition filter_numeric :: "unicode \<Rightarrow> frame \<Rightarrow> frame" where
  "filter_numeric U musics =
    (let musics1 = set_col (S ''bpm'')
           (keep_where (col musics (S ''bpm'')) (apply_str_isnumeric U (col musics (S ''bpm'')))) musics;
         musics2 = set_col (S ''date'')
           (keep_where (col musics1 (S ''date''))
              (apply_str_isnumeric U (str_map (\<lambda>x. Str (remove_char 45 x)) (col musics1 (S ''date''))))) musics1;
         musics3 = set_col (S ''discnumber'')
           (keep_where (col musics2 (S ''discnumber''))
              (apply_str_isnumeric U (str_map (\<lambda>x. Str (remove_char 47 x)) (col musics2 (S ''discnumber''))))) musics2;
         musics4 = set_col (S ''tracknumber'')
           (keep_where (col musics3 (S ''tracknumber''))
              (apply_str_isnumeric U (str_map (\<lambda>x. Str (remove_char 47 x)) (col musics3 (S ''tracknumber''))))) musics3
     in musics4)"

definition filter_genre :: "unicode \<Rightarrow> frame \<Rightarrow> frame" where
  "filter_genre U musics =
    (let musics1 = set_col (S ''genre'')
           (set_none (col musics (S ''genre''))
              (mask_containing_regex (col musics (S ''genre'')) (genre_regex U))) musics
     in set_col (S ''genre'') (remove_websites_and_tags U (col musics1 (S ''genre''))) musics1)"

definition filter_albumartist :: "unicode \<Rightarrow> frame \<Rightarrow> frame" where
  "filter_albumartist U musics =
    (let musics1 = set_col (S ''albumartist'')
           (set_none (col musics (S ''albumartist''))
              (mask_or (isnull (col musics (S ''album'')))
                 (mask_containing_regex (col musics (S ''albumartist'')) (albumartist_regex U)))) musics
     in set_col (S ''albumartist'') (remove_websites_and_tags U (col musics1 (S ''albumartist''))) musics1)"

definition filter_album :: "unicode \<Rightarrow> frame \<Rightarrow> frame" where
  "filter_album U musics =
    (let musics1 = set_col (S ''album'')
           (set_none (col musics (S ''album''))
              (mask_or (isnull (col musics (S ''albumartist'')))
                 (mask_containing_regex (col musics (S ''album'')) (album_regex U)))) musics
     in set_col (S ''album'') (remove_websites_and_tags U (col musics1 (S ''album''))) musics1)"

definition double_check :: "frame \<Rightarrow> frame" where
  "double_check musics =
    (let mask = mask_or (isnull (col musics (S ''album''))) (isnull (col musics (S ''albumartist'')));
         musics1 = set_col (S ''album'') (set_none (col musics (S ''album'')) mask) musics
     in set_col (S ''albumartist'') (set_none (col musics1 (S ''albumartist'')) mask) musics1)"

definition clean_artist_title :: "unicode \<Rightarrow> frame \<Rightarrow> frame" where
  "clean_artist_title U musics =
    (let musics1 = set_col (S ''artist'')
           (str_map (\<lambda>x. Str (re_sub (word U rf_marker) [] x)) (col musics (S ''artist''))) musics;
         musics2 = set_col (S ''artist'') (remove_websites_and_tags U (col musics1 (S ''artist''))) musics1
     in set_col (S ''title'') (remove_websites_and_tags U (col musics2 (S ''title''))) musics2)"

definition normalize :: "unicode \<Rightarrow> frame \<Rightarrow> frame" where
  "normalize U musics =
    clean_artist_title U (double_check (filter_album U (filter_albumartist U
      (filter_genre U (filter_numeric U (consolidate_date musics))))))"

text \<open>
  \<open>generate_music_info\<close> returns what it writes to \<open>music_info.xlsx\<close>. With no readable
  file the frame has no column, and \<open>musics['originaldate']\<close> raises \<open>KeyError\<close>.
\<close>

definition generate_music_info ::
  "unicode \<Rightarrow> (pystr \<times> pystr list) list \<Rightarrow> pystr list option \<Rightarrow> (pystr \<Rightarrow> audio option)
     \<Rightarrow> error + (frame \<times> nat list)" where
  "generate_music_info U walk cache reader =
    (let addrs = fst (get_music_addrs U walk cache False);
         musics = from_records (read_musics reader addrs)
     in if musics = [] then Inl KeyError else Inr (do_highlight (normalize U musics)))"

text \<open>
  The condition of the review flag on one row, and the relation between two tables that
  holds when every row of the second is a row of the first with no column lost.
\<close>

definition needs_review :: "nat \<times> pydict \<Rightarrow> bool" where
  "needs_review x = (get (snd x) (S ''artist'') = Null \<or> get (snd x) (S ''title'') = Null)"

definition keeps_columns :: "frame \<Rightarrow> frame \<Rightarrow> bool" where
  "keeps_columns df df' = (\<forall>(i, r') \<in> set df'. \<exists>r. (i, r) \<in> set df \<and> fst ` set r \<subseteq> fst ` set r')"


section \<open>A run of generate_music_info\<close>

text \<open>
  One directory with one audio file, whose tags are an album, a track number and an
  original date; and the table that \<open>generate_music_info\<close> writes for it.
\<close>

definition ex_walk :: "(pystr \<times> pystr list) list" where
  "ex_walk = [(S ''/m'', [S ''a.mp3''])]"

definition ex_reader :: "pystr \<Rightarrow> audio option" where
  "ex_reader file = (if file = S ''/m/a.mp3''
     then Some \<lparr>tags = [(S ''album'', [S ''X'']), (S ''tracknumber'', [S ''3/12'']),
                         (S ''originaldate'', [S ''2020''])],
                bitrate = S ''320'', length_mmss = S ''03:05''\<rparr>
     else None)"

definition ex_row :: pydict where
  "ex_row = [(S ''file'', Str (S ''/m/a.mp3'')), (S ''title'', Null), (S ''artist'', Null),
    (S ''album'', Str (S ''X'')), (S ''albumartist'', Null), (S ''genre'', Null), (S ''date'', Null),
    (S ''bpm'', Null), (S ''tracknumber'', Str (S ''3/12'')), (S ''discnumber'', Null),
    (S ''originaldate'', Str (S ''2020'')), (S ''bitrate'', Str (S ''320'')),
    (S ''length'', Str (S ''03:05'')), (S ''miscellaneous'', Dict [])]"

definition ex_out :: frame where
  "ex_out = [(0, [(S ''file'', Str (S ''/m/a.mp3'')), (S ''title'', Null), (S ''artist'', Null),
    (S ''album'', Null), (S ''albumartist'', Null), (S ''genre'', Null), (S ''date'', Str (S ''2020'')),
    (S ''bpm'', Null), (S ''tracknumber'', Str (S ''3/12'')), (S ''discnumber'', Null),
    (S ''originaldate'', Str (S ''2020'')), (S ''bitrate'', Str (S ''320'')),
    (S ''length'', Str (S ''03:05'')), (S ''miscellaneous'', Dict [])])]"

section \<open>Paths, files and the terminal\<close>

text \<open>
  A \<open>pathlib.Path\<close> on POSIX is the list of its parts, the root \<open>/\<close> first when the path
  is absolute. \<open>Path s\<close> parses a string: empty parts and \<open>.\<close> parts are dropped.
\<close>

type_synonym path = "pystr list"

fun split_on :: "pychar \<Rightarrow> pystr \<Rightarrow> pystr list" where
  "split_on c [] = [[]]"
| "split_on c (x # xs) =
    (if x = c then [] # split_on c xs
     else (case split_on c xs of [] \<Rightarrow> [[x]] | p # ps \<Rightarrow> (x # p) # ps))"

definition Path :: "pystr \<Rightarrow> path" where
  "Path s = (if startswith s (S ''/'') then [S ''/''] else [])
            @ filter (\<lambda>p. p \<noteq> [] \<and> p \<noteq> S ''.'') (split_on 47 s)"

definition has_name :: "path \<Rightarrow> bool" where
  "has_name p = (p \<noteq> [] \<and> p \<noteq> [S ''/''])"

fun join_slash :: "pystr list \<Rightarrow> pystr" where
  "join_slash [] = []"
| "join_slash [x] = x"
| "join_slash (x # y # zs) = x @ S ''/'' @ join_slash (y # zs)"

text \<open>\<open>str(p)\<close>\<close>

definition path_str :: "path \<Rightarrow> pystr" where
  "path_str p =
    (case p of
       [] \<Rightarrow> S ''.''
     | r # ps \<Rightarrow> if r = S ''/'' then S ''/'' @ join_slash ps else join_slash (r # ps))"

definition parent :: "path \<Rightarrow> path" where
  "parent p = (if has_name p then butlast p else p)"

definition name :: "path \<Rightarrow> pystr" where
  "name p = (if has_name p then last p else [])"

text \<open>
  \<open>Path.suffix\<close>: the name from its last dot on, when that dot is neither the first nor
  the last character of the name.
\<close>

definition path_suffix :: "path \<Rightarrow> pystr" where
  "path_suffix p =
    (let n = name p; after = length (takeWhile (\<lambda>c. c \<noteq> 46) (rev n))
     in if 46 \<in> set n \<and> 0 < after \<and> after + 1 < length n then drop (length n - after - 1) n else [])"

text \<open>\<open>p / s\<close>\<close>

definition joinpath :: "path \<Rightarrow> pystr \<Rightarrow> path" where
  "joinpath p s = (if startswith s (S ''/'') then Path s else p @ Path s)"

text \<open>
  \<open>_gen_new_file_name\<close>: \<open>re.subn\<close> with the class \<^verbatim>\<open>[<>:"/\\!?*|]*\<close> and the empty
  replacement deletes every character of the class.
\<close>

definition illegal :: "pychar \<Rightarrow> bool" where
  "illegal c = (c \<in> set (S ''<>:\"/!?*|'') \<or> c = 92)"

definition gen_new_file_name :: "path \<Rightarrow> pystr \<Rightarrow> path" where
  "gen_new_file_name file new_name =
    joinpath (parent file) (filter (\<lambda>c. \<not> illegal c) (new_name @ path_suffix file))"

text \<open>
  The world outside the program: the files with their tags, the lines still to come on
  the standard input, and the log of what the program has asked of the world. A file
  that the tag library does not recognise has no tags (\<open>mutagen.File\<close> returns \<open>None\<close>).
\<close>

type_synonym tagdict = "(pystr \<times> cell list) list"

datatype node = Dir | File "tagdict option"

datatype event =
    Input
  | Remove path
  | Rename path path
  | Clear path
  | Update path tagdict
  | Save path

record world =
  fs :: "path \<Rightarrow> node option"
  stdin :: "pystr list"
  log :: "event list"

text \<open>
  What the program cannot decide: how the operating system and the libraries answer.
  \<open>os_walk\<close> is the answer of \<open>os.walk\<close> in the apply phase, \<open>json_loads\<close> is \<open>json.loads\<close>
  (\<open>None\<close> when it raises), \<open>py_repr\<close> is \<open>str\<close> of a cell that is no string.
\<close>

datatype save_outcome = SaveOk | SavePermissionError | SaveOtherError

record env =
  uni :: unicode
  os_walk :: "(pystr \<times> pystr list) list"
  json_loads :: "pystr \<Rightarrow> pydict option"
  py_repr :: "cell \<Rightarrow> pystr"
  rename_ok :: "path \<Rightarrow> path \<Rightarrow> bool"
  remove_ok :: "path \<Rightarrow> bool"
  save_result :: "path \<Rightarrow> save_outcome"

definition emit :: "event \<Rightarrow> world \<Rightarrow> world" where
  "emit e w = w\<lparr>log := log w @ [e]\<rparr>"

definition path_exists :: "world \<Rightarrow> path \<Rightarrow> bool" where
  "path_exists w p = (fs w p \<noteq> None)"

text \<open>\<open>os.remove\<close> inside \<open>try ... except: pass\<close>: only a file goes, and only if the system lets it.\<close>

definition os_remove :: "env \<Rightarrow> path \<Rightarrow> world \<Rightarrow> world" where
  "os_remove E p w =
    (let w1 = emit (Remove p) w
     in case fs w p of
          Some (File t) \<Rightarrow> if remove_ok E p then w1\<lparr>fs := (fs w)(p := None)\<rparr> else w1
        | _ \<Rightarrow> w1)"

text \<open>\<open>input()\<close>: \<open>EOFError\<close> when no line is left.\<close>

definition input :: "world \<Rightarrow> (error + pystr) \<times> world" where
  "input w =
    (case stdin w of
       [] \<Rightarrow> (Inl EOFError, emit Input w)
     | a # rest \<Rightarrow> (Inr a, emit Input (w\<lparr>stdin := rest\<rparr>)))"

section \<open>Organizer._remove_file_with_permission\<close>

text \<open>The messages that the program prints are left out of the log.\<close>

definition remove_file_with_permission ::
  "env \<Rightarrow> path \<Rightarrow> pystr option \<Rightarrow> world \<Rightarrow> (error + pystr) \<times> world" where
  "remove_file_with_permission E file permission w =
    (case (if permission \<noteq> Some (S ''na'') \<and> permission \<noteq> Some (S ''ya'')
           then input w
           else (case permission of Some p \<Rightarrow> (Inr p, w) | None \<Rightarrow> input w)) of
       (Inl e, w1) \<Rightarrow> (Inl e, w1)
     | (Inr p, w1) \<Rightarrow>
         if startswith p (S ''y'') then (Inr p, os_remove E file w1) else (Inr p, w1))"

section \<open>Organizer.apply_tags\<close>

text \<open>
  The four permissions (\<open>None\<close>: ask), and the variables of the loop over the records:
  the permissions, the indices to pop, and the world.
\<close>

record permissions =
  remove_deleted :: "pystr option"
  remove_not_found :: "pystr option"
  remove_rename_error :: "pystr option"
  remove_edit_error :: "pystr option"

record loop_state =
  perms :: permissions
  to_pop :: "nat list"
  wld :: world

text \<open>
  A pass of the loop body ends with \<open>continue\<close> or at its end (\<open>Next\<close>), or with an
  exception, which the \<open>except Exception\<close> around the loop catches: the loop is over
  (\<open>Stop\<close>).
\<close>

datatype ctl = Next | Stop

text \<open>The truth value of a cell, and \<open>f"{v}"\<close>.\<close>

definition truthy :: "cell \<Rightarrow> bool" where
  "truthy v = (case v of Null \<Rightarrow> False | Str s \<Rightarrow> s \<noteq> [] | EmptyList \<Rightarrow> False | Dict d \<Rightarrow> d \<noteq> [])"

definition fmt :: "env \<Rightarrow> cell \<Rightarrow> pystr" where
  "fmt E v = (case v of Str s \<Rightarrow> s | _ \<Rightarrow> py_repr E v)"

text \<open>Lines 264 to 270: the file of the record is not on the disk.\<close>

definition not_found :: "env \<Rightarrow> nat \<Rightarrow> path \<Rightarrow> loop_state \<Rightarrow> ctl \<times> loop_state" where
  "not_found E i f st =
    (case remove_file_with_permission E f (remove_not_found (perms st)) (wld st) of
       (Inl e, w1) \<Rightarrow> (Stop, st\<lparr>wld := w1\<rparr>)
     | (Inr p, w1) \<Rightarrow>
         (Next, st\<lparr>perms := (perms st)\<lparr>remove_not_found := Some p\<rparr>,
                   to_pop := (if startswith p (S ''y'') then to_pop st @ [i] else to_pop st),
                   wld := w1\<rparr>))"

text \<open>
  Lines 272 to 274: \<open>music.update(json.loads(music['miscellaneous']))\<close>; \<open>None\<close> when
  this raises.
\<close>

definition merge_miscellaneous :: "env \<Rightarrow> pydict \<Rightarrow> pydict option" where
  "merge_miscellaneous E music =
    (case map_of music (S ''miscellaneous'') of
       Some (Str s) \<Rightarrow>
         (case json_loads E s of
            None \<Rightarrow> None
          | Some d \<Rightarrow> Some (fold (\<lambda>(k, v). AList.update k v) d music))
     | _ \<Rightarrow> None)"

text \<open>
  Lines 276 to 281: the new name of the file, or the finding that both candidates are
  taken. \<open>music['title'] and music['artist']\<close> reads \<open>artist\<close> only if \<open>title\<close> is true.
\<close>

datatype naming = Target path | Collision

definition new_file_name :: "env \<Rightarrow> world \<Rightarrow> path \<Rightarrow> pydict \<Rightarrow> error + naming" where
  "new_file_name E w f music =
    (case map_of music (S ''title'') of
       None \<Rightarrow> Inl KeyError
     | Some title \<Rightarrow>
         if \<not> truthy title then Inr (Target f)
         else (case map_of music (S ''artist'') of
                 None \<Rightarrow> Inl KeyError
               | Some artist \<Rightarrow>
                   if \<not> truthy artist then Inr (Target f)
                   else (let n1 = gen_new_file_name f (fmt E title)
                         in if n1 \<noteq> f \<and> path_exists w n1
                            then (let n2 = gen_new_file_name f (fmt E artist @ S ''-'' @ fmt E title)
                                  in if n2 \<noteq> f \<and> path_exists w n2 then Inr Collision
                                     else Inr (Target n2))
                            else Inr (Target n1))))"

text \<open>Lines 282 to 288: both candidates are taken.\<close>

definition rename_error :: "env \<Rightarrow> nat \<Rightarrow> path \<Rightarrow> loop_state \<Rightarrow> ctl \<times> loop_state" where
  "rename_error E i f st =
    (case remove_file_with_permission E f (remove_rename_error (perms st)) (wld st) of
       (Inl e, w1) \<Rightarrow> (Stop, st\<lparr>wld := w1\<rparr>)
     | (Inr p, w1) \<Rightarrow>
         (Next, st\<lparr>perms := (perms st)\<lparr>remove_rename_error := Some p\<rparr>,
                   to_pop := (if startswith p (S ''y'') then to_pop st @ [i] else to_pop st),
                   wld := w1\<rparr>))"

text \<open>
  Lines 290 to 296: the renaming. When the system refuses, the program prints a message
  and goes on with the old path.
\<close>

definition rename :: "env \<Rightarrow> path \<Rightarrow> path \<Rightarrow> pydict \<Rightarrow> world \<Rightarrow> path \<times> pydict \<times> world" where
  "rename E f n music w =
    (if n \<noteq> f then
       (let w1 = emit (Rename f n) w
        in if rename_ok E f n
           then (n, AList.update (S ''file'') (Str (path_str n)) music,
                 w1\<lparr>fs := (fs w)(f := None, n := fs w f)\<rparr>)
           else (f, music, w1))
     else (f, music, w))"

text \<open>Lines 299 to 302: the tags to write.\<close>

definition information_columns :: "string list" where
  "information_columns = [''bitrate'', ''length'']"

definition new_tags :: "pydict \<Rightarrow> tagdict" where
  "new_tags music =
    map (\<lambda>(k, v). (k, [v]))
      (filter (\<lambda>(k, v). k \<notin> set (map S ([''file'', ''miscellaneous''] @ information_columns)) \<and> truthy v)
         music)"

text \<open>Equality of two dictionaries: the same value, or none, under every key.\<close>

definition dict_eq :: "tagdict \<Rightarrow> tagdict \<Rightarrow> bool" where
  "dict_eq a b = (\<forall>k \<in> set (map fst a @ map fst b). map_of a k = map_of b k)"

text \<open>Lines 318 to 321: the file cannot be written.\<close>

definition edit_error :: "env \<Rightarrow> nat \<Rightarrow> path \<Rightarrow> loop_state \<Rightarrow> ctl \<times> loop_state" where
  "edit_error E i f st =
    (case remove_file_with_permission E f (remove_edit_error (perms st)) (wld st) of
       (Inl e, w1) \<Rightarrow> (Stop, st\<lparr>wld := w1\<rparr>)
     | (Inr p, w1) \<Rightarrow>
         (Next, st\<lparr>perms := (perms st)\<lparr>remove_edit_error := Some p\<rparr>,
                   to_pop := (if startswith p (S ''y'') then to_pop st @ [i] else to_pop st),
                   wld := w1\<rparr>))"

text \<open>
  Lines 298 to 321: open the file, compare, and write. After \<open>clear()\<close> and
  \<open>update(new_tags)\<close> the object holds the new tags; \<open>save()\<close> puts them on the disk or
  raises.
\<close>

definition write_tags :: "env \<Rightarrow> nat \<Rightarrow> path \<Rightarrow> pydict \<Rightarrow> loop_state \<Rightarrow> ctl \<times> loop_state" where
  "write_tags E i f music st =
    (case fs (wld st) f of
       Some (File (Some old_tags)) \<Rightarrow>
         if dict_eq old_tags (new_tags music) then (Next, st)
         else
           (let w1 = emit (Save f) (emit (Update f (new_tags music)) (emit (Clear f) (wld st)))
            in case save_result E f of
                 SaveOk \<Rightarrow> (Next, st\<lparr>wld := w1\<lparr>fs := (fs w1)(f \<mapsto> File (Some (new_tags music)))\<rparr>\<rparr>)
               | SavePermissionError \<Rightarrow> edit_error E i f (st\<lparr>wld := w1\<rparr>)
               | SaveOtherError \<Rightarrow> (Stop, st\<lparr>wld := w1\<rparr>))
     | _ \<Rightarrow> (Stop, st))"

text \<open>The body of the loop, for the record \<open>music\<close> at index \<open>i\<close>; it returns the record as it has become.\<close>

definition process_music ::
  "env \<Rightarrow> bool \<Rightarrow> nat \<Rightarrow> pydict \<Rightarrow> loop_state \<Rightarrow> ctl \<times> pydict \<times> loop_state" where
  "process_music E allow_miscellaneous i music st =
    (case map_of music (S ''file'') of
       Some (Str file) \<Rightarrow>
         (let f = Path file
          in if \<not> path_exists (wld st) f
             then (let (c, st1) = not_found E i f st in (c, music, st1))
             else (case (if allow_miscellaneous then merge_miscellaneous E music else Some music) of
                     None \<Rightarrow> (Stop, music, st)
                   | Some music1 \<Rightarrow>
                       (case new_file_name E (wld st) f music1 of
                          Inl e \<Rightarrow> (Stop, music1, st)
                        | Inr Collision \<Rightarrow> (let (c, st1) = rename_error E i f st in (c, music1, st1))
                        | Inr (Target n) \<Rightarrow>
                            (let (f1, music2, w1) = rename E f n music1 (wld st);
                                 (c, st1) = write_tags E i f1 music2 (st\<lparr>wld := w1\<rparr>)
                             in (c, music2, st1)))))
     | _ \<Rightarrow> (Stop, music, st))"

fun apply_loop :: "env \<Rightarrow> bool \<Rightarrow> nat \<Rightarrow> pydict list \<Rightarrow> loop_state \<Rightarrow> pydict list \<times> loop_state" where
  "apply_loop E am i [] st = ([], st)"
| "apply_loop E am i (music # rest) st =
    (case process_music E am i music st of
       (Stop, music1, st1) \<Rightarrow> (music1 # rest, st1)
     | (Next, music1, st1) \<Rightarrow>
         (let (rest1, st2) = apply_loop E am (Suc i) rest st1 in (music1 # rest1, st2)))"

text \<open>\<open>for _id in to_pop: musics.pop(_id)\<close>\<close>

fun pop_all :: "nat list \<Rightarrow> 'a list \<Rightarrow> error + 'a list" where
  "pop_all [] musics = Inr musics"
| "pop_all (i # rest) musics =
    (if i < length musics then pop_all rest (take i musics @ drop (Suc i) musics)
     else Inl IndexError)"

text \<open>Lines 254 to 256: the files on the disk that the table does not list.\<close>

fun remove_deleted_loop ::
  "env \<Rightarrow> pystr list \<Rightarrow> pystr option \<Rightarrow> world \<Rightarrow> (error + pystr option) \<times> world" where
  "remove_deleted_loop E [] p w = (Inr p, w)"
| "remove_deleted_loop E (f # rest) p w =
    (case remove_file_with_permission E (Path f) p w of
       (Inl e, w1) \<Rightarrow> (Inl e, w1)
     | (Inr q, w1) \<Rightarrow> remove_deleted_loop E rest (Some q) w1)"

text \<open>
  \<open>apply_tags\<close>: \<open>stored\<close> is the table of \<open>music_info.xlsx\<close>, if the file exists. The
  result is the table written back, or the exception that ends the run before
  anything is written.
\<close>

definition apply_tags ::
  "env \<Rightarrow> frame option \<Rightarrow> permissions \<Rightarrow> bool \<Rightarrow> world \<Rightarrow> (error + frame \<times> nat list) \<times> world" where
  "apply_tags E stored permissions allow_miscellaneous w =
    (case stored of
       None \<Rightarrow> (Inl FileNotFoundError, w)
     | Some musics \<Rightarrow>
         (let addrs = fst (get_music_addrs (uni E) (os_walk E) None False);
              deleted = filter (\<lambda>a. Str a \<notin> set (col musics (S ''file''))) addrs
          in case remove_deleted_loop E deleted (remove_deleted permissions) w of
               (Inl e, w1) \<Rightarrow> (Inl e, w1)
             | (Inr p, w1) \<Rightarrow>
                 (let (musics1, st) = apply_loop E allow_miscellaneous 0 (to_dict_records musics)
                        \<lparr>perms = permissions\<lparr>remove_deleted := p\<rparr>, to_pop = [], wld = w1\<rparr>
                  in case pop_all (to_pop st) musics1 of
                       Inl e \<Rightarrow> (Inl e, wld st)
                     | Inr musics2 \<Rightarrow> (Inr (do_highlight (from_records musics2)), wld st))))"

section \<open>A run of apply_tags\<close>

text \<open>
  A directory \<open>/m\<close> that holds one audio file \<open>c.mp3\<close> without tags, and a review table
  of three records, for \<open>a.mp3\<close>, \<open>b.mp3\<close> and \<open>c.mp3\<close>: the first two files are no
  longer on the disk. Nothing is typed on the terminal; the caller answers the question
  about files that are not found in advance with \<open>ya\<close>.
\<close>

definition ex_record :: "string \<Rightarrow> pydict" where
  "ex_record file = [(S ''file'', Str (S file)), (S ''title'', Null), (S ''artist'', Null),
    (S ''album'', Null), (S ''albumartist'', Null), (S ''genre'', Null), (S ''date'', Null),
    (S ''bpm'', Null), (S ''tracknumber'', Null), (S ''discnumber'', Null),
    (S ''originaldate'', Null), (S ''bitrate'', Str (S ''320'')),
    (S ''length'', Str (S ''03:05'')), (S ''miscellaneous'', Str (S ''{}''))]"

definition ex_stored :: frame where
  "ex_stored = [(0, ex_record ''/m/a.mp3''), (1, ex_record ''/m/b.mp3''), (2, ex_record ''/m/c.mp3'')]"

definition ex_env :: env where
  "ex_env = \<lparr>uni = ascii_only, os_walk = [(S ''/m'', [S ''c.mp3''])], json_loads = (\<lambda>s. None),
     py_repr = (\<lambda>v. []), rename_ok = (\<lambda>f n. True), remove_ok = (\<lambda>f. True),
     save_result = (\<lambda>f. SaveOk)\<rparr>"

definition ex_fs :: "path \<Rightarrow> node option" where
  "ex_fs p = (if p = [S ''/'', S ''m'', S ''c.mp3''] then Some (File (Some []))
              else if p = [S ''/''] \<or> p = [S ''/'', S ''m''] then Some Dir else None)"

definition ex_world :: world where
  "ex_world = \<lparr>fs = ex_fs, stdin = [], log = []\<rparr>"

definition ex_permissions :: permissions where
  "ex_permissions = \<lparr>remove_deleted = None, remove_not_found = Some (S ''ya''),
     remove_rename_error = None, remove_edit_error = None\<rparr>"

text \<open>The record of \<open>c.mp3\<close> after the user has filled in a title.\<close>

definition ex_titled :: pydict where
  "ex_titled = AList.update (S ''title'') (Str (S ''Song'')) (ex_record ''/m/c.mp3'')"

text \<open>
  The same record with title and artist, in a directory where both names that the record
  could get are taken; the user answers \<open>n\<close>.
\<close>

definition ex_song :: pydict where
  "ex_song = AList.update (S ''artist'') (Str (S ''Artist'')) ex_titled"

definition ex_crowded :: world where
  "ex_crowded =
    \<lparr>fs = (\<lambda>p. if p = [S ''/'', S ''m'', S ''c.mp3''] \<or> p = [S ''/'', S ''m'', S ''Song.mp3'']
                    \<or> p = [S ''/'', S ''m'', S ''Artist-Song.mp3'']
                 then Some (File (Some [])) else None),
     stdin = [S ''n''], log = []\<rparr>"

section \<open>The matcher and the ad pattern\<close>

lemma take_takeWhile_all: "k \<le> length (takeWhile p s) \<Longrightarrow> list_all p (take k s)"
proof -
  assume k: "k \<le> length (takeWhile p s)"
  have "take k (take (length (takeWhile p s)) s) = take k s" using k by (simp add: min_absorb1)
  moreover have "take (length (takeWhile p s)) s = takeWhile p s"
    by (rule takeWhile_eq_take [symmetric])
  ultimately have "take k s = take k (takeWhile p s)" by simp
  then have "set (take k s) \<subseteq> set (takeWhile p s)" by (simp add: set_take_subset)
  then show ?thesis by (auto simp: list_all_iff dest: set_takeWhileD)
qed

lemma all_le_takeWhile: "list_all p x \<Longrightarrow> length x \<le> length (takeWhile p (x @ t))"
  by (simp add: list_all_iff takeWhile_append2)

lemma matches_Rep:
  "set (matches (Rep p lo hi) s) = {t. \<exists>x \<in> lang (Rep p lo hi). s = x @ t}"
proof (intro set_eqI iffI)
  fix t assume a: "t \<in> set (matches (Rep p lo hi) s)"
  define m where "m = (case hi of None \<Rightarrow> length (takeWhile p s) | Some h \<Rightarrow> min h (length (takeWhile p s)))"
  have "matches (Rep p lo hi) s = map (\<lambda>k. drop k s) (rev [lo..<Suc m])"
    by (simp add: m_def Let_def)
  with a obtain k where km: "lo \<le> k" "k \<le> m" and t: "t = drop k s" by auto
  from km have k: "lo \<le> k" "k \<le> length (takeWhile p s)"
      "case hi of None \<Rightarrow> True | Some h \<Rightarrow> k \<le> h"
    by (auto simp: m_def split: option.splits)
  have "k \<le> length s" using k(2) length_takeWhile_le [of p s] by linarith
  then have "length (take k s) = k" by simp
  with k take_takeWhile_all [OF k(2)] have "take k s \<in> lang (Rep p lo hi)"
    by (auto split: option.splits)
  moreover have "s = take k s @ t" using t by simp
  ultimately show "t \<in> {t. \<exists>x \<in> lang (Rep p lo hi). s = x @ t}" by blast
next
  fix t assume "t \<in> {t. \<exists>x \<in> lang (Rep p lo hi). s = x @ t}"
  then obtain x where x: "list_all p x" "lo \<le> length x"
      "case hi of None \<Rightarrow> True | Some h \<Rightarrow> length x \<le> h" and s: "s = x @ t"
    by auto
  have "length x \<le> length (takeWhile p s)" using all_le_takeWhile [OF x(1)] s by simp
  moreover have "t = drop (length x) s" using s by simp
  ultimately show "t \<in> set (matches (Rep p lo hi) s)"
    using x by (auto simp: Let_def split: option.splits)
qed

lemma matches_lang: "set (matches r s) = {t. \<exists>x \<in> lang r. s = x @ t}"
proof (induction r arbitrary: s)
  case Eps
  show ?case by auto
next
  case (Cls p)
  show ?case by (cases s) auto
next
  case (Seq a b)
  show ?case by (auto simp: Seq) (metis append.assoc)+
next
  case (Alt a b)
  show ?case by (auto simp: Alt)
next
  case (Opt a)
  show ?case by (auto simp: Opt)
next
  case (Rep p lo hi)
  show ?case by (rule matches_Rep)
qed


lemma word_lang: "x \<in> lang (word U w) \<Longrightarrow> length x = length w \<and> (\<forall>i < length w. ci U (w ! i) (x ! i))"
  unfolding word_def
proof (induction w arbitrary: x)
  case Nil
  then show ?case by simp
next
  case (Cons p w)
  then obtain c y where x: "x = c # y" "ci U p c" "y \<in> lang (foldr (\<lambda>p r. Seq (Cls (ci U p)) r) w Eps)"
    by auto
  from Cons.IH [OF x(3)] x(1,2) show ?case by (auto simp: nth_Cons split: nat.splits)
qed

lemma word_nonempty: "w \<noteq> [] \<Longrightarrow> [] \<notin> lang (word U w)"
  using word_lang [of "[]" U w] by auto

lemma ci_32: "p \<noteq> 32 \<Longrightarrow> p < 65 \<or> 90 < p \<Longrightarrow> p < 128 \<Longrightarrow> \<not> ci U p 32"
  by (auto simp: ci_def ascii_lower_def)

lemma word_no_space:
  assumes "x \<in> lang (word U w)" "\<forall>p \<in> set w. p \<noteq> 32 \<and> (p < 65 \<or> 90 < p) \<and> p < 128"
  shows "32 \<notin> set x"
proof
  assume "32 \<in> set x"
  then obtain i where i: "i < length x" "x ! i = 32" by (auto simp: in_set_conv_nth)
  from word_lang [OF assms(1)] i have "ci U (w ! i) 32" "i < length w" by auto
  with assms(2) ci_32 [of "w ! i" U] show False by (metis nth_mem)
qed

lemma tld_no_space: "x \<in> lang (tld_rx U) \<Longrightarrow> 32 \<notin> set x"
  by (auto simp: tld_rx_def tlds_def S_def dest!: word_no_space)

lemma url_head_32: "\<not> url_head U 32" by (simp add: url_head_def is_word_def S_def)
lemma url_tail_32: "\<not> url_tail U 32" by (simp add: url_tail_def is_word_def S_def)

lemma token_shape: "b \<in> lang (token_rx U) \<Longrightarrow> b \<noteq> [] \<and> 32 \<notin> set b"
  using url_head_32 [of U] url_tail_32 [of U]
  by (auto simp: token_rx_def list_all_iff dest: tld_no_space)


lemma token_in_ad: "b \<in> lang (token_rx U) \<Longrightarrow> b \<in> lang (ad_rx U)"
proof -
  assume b: "b \<in> lang (token_rx U)"
  have 1: "[] \<in> lang (label_rx U)" by (simp add: label_rx_def)
  have 2: "[] \<in> lang (Rep noise 0 None)" by simp
  have "b @ [] \<in> lang (Seq (token_rx U) (Rep noise 0 None))" using b 2 by (simp only: lang.simps) blast
  then have "[] @ b \<in> lang (Seq (Rep noise 0 None) (Seq (token_rx U) (Rep noise 0 None)))"
    using 2 by (simp only: lang.simps) blast
  then have "[] @ ([] @ b) \<in> lang (ad_rx U)"
    unfolding ad_rx_def using 1 by (simp only: lang.simps) blast
  then show ?thesis by simp
qed

lemma ad_has_token: "x \<in> lang (ad_rx U) \<Longrightarrow> \<exists>p b q. x = p @ b @ q \<and> b \<in> lang (token_rx U)"
proof -
  assume "x \<in> lang (ad_rx U)"
  then obtain l n1 b n2 where "x = l @ n1 @ b @ n2" "b \<in> lang (token_rx U)"
    unfolding ad_rx_def by (simp only: lang.simps) blast
  then have "x = (l @ n1) @ b @ n2 \<and> b \<in> lang (token_rx U)" by simp
  then show ?thesis by blast
qed

lemma ad_rx_nonempty: "[] \<notin> lang (ad_rx U)"
  using ad_has_token [of "[]" U] token_shape by fastforce

lemma match_at_None: "match_at r s = None \<longleftrightarrow> (\<forall>x \<in> lang r. \<forall>t. s \<noteq> x @ t)"
proof -
  have "match_at r s = None \<longleftrightarrow> set (matches r s) = {}"
    by (simp add: match_at_def split: list.splits)
  then show ?thesis unfolding matches_lang by blast
qed

lemma match_at_Some: "match_at r s = Some t \<Longrightarrow> \<exists>x \<in> lang r. s = x @ t"
proof -
  assume "match_at r s = Some t"
  then have "t \<in> set (matches r s)" by (auto simp: match_at_def split: list.splits)
  then show ?thesis unfolding matches_lang by blast
qed

lemma S_space: "S '' '' = [32]"
  by (simp add: S_def)

lemma re_sub_prefix: "prefix b (re_sub r [32] s) \<Longrightarrow> 32 \<notin> set b \<Longrightarrow> prefix b s"
proof (induction r "[32::nat]" s arbitrary: b rule: re_sub.induct)
  case (1 r)
  then show ?case by simp
next
  case (2 r c cs)
  show ?case
  proof (cases b)
    case Nil
    then show ?thesis by simp
  next
    case (Cons d b')
    show ?thesis
    proof (cases "match_at r (c # cs)")
      case None
      with 2 Cons show ?thesis by auto
    next
      case (Some t)
      with 2 Cons show ?thesis by (auto split: if_splits)
    qed
  qed
qed

lemma sub_ads_prefix: "prefix b (sub_ads U s) \<Longrightarrow> 32 \<notin> set b \<Longrightarrow> prefix b s"
  unfolding sub_ads_def S_space by (rule re_sub_prefix)

lemma sub_ads_Nil: "sub_ads U [] = []"
  by (simp add: sub_ads_def)

lemma sub_ads_None: "match_at (ad_rx U) (c # cs) = None \<Longrightarrow> sub_ads U (c # cs) = c # sub_ads U cs"
  by (simp add: sub_ads_def)

lemma sub_ads_Some:
  "match_at (ad_rx U) (c # cs) = Some t \<Longrightarrow> length t < length (c # cs) \<Longrightarrow>
   sub_ads U (c # cs) = 32 # sub_ads U t"
  by (simp add: sub_ads_def S_space)

lemma has_tok_Cons: "has_tok U s \<Longrightarrow> has_tok U (c # s)"
  unfolding has_tok_def by (metis append_Cons)

lemma has_tok_ConsD:
  assumes "has_tok U (c # s)"
  shows "has_tok U s \<or> (\<exists>b q. c # s = b @ q \<and> b \<in> lang (token_rx U))"
proof -
  from assms obtain p b q where pbq: "c # s = p @ b @ q" "b \<in> lang (token_rx U)"
    unfolding has_tok_def by blast
  show ?thesis
  proof (cases p)
    case Nil
    with pbq show ?thesis by auto
  next
    case (Cons d p')
    with pbq have "s = p' @ b @ q" by simp
    with pbq(2) show ?thesis unfolding has_tok_def by blast
  qed
qed

lemma sub_ads_no_token: "\<not> has_tok U (sub_ads U s)"
proof (induction s rule: length_induct)
  case (1 s)
  show ?case
  proof (cases s)
    case Nil
    then show ?thesis using token_shape by (auto simp: has_tok_def sub_ads_Nil)
  next
    case (Cons c cs)
    have IHcs: "\<not> has_tok U (sub_ads U cs)" using 1 Cons by simp
    show ?thesis
    proof (cases "match_at (ad_rx U) (c # cs)")
      case None
      then have sub: "sub_ads U (c # cs) = c # sub_ads U cs" by (rule sub_ads_None)
      show ?thesis
      proof
        assume "has_tok U (sub_ads U s)"
        with sub Cons IHcs obtain b q where bq: "c # sub_ads U cs = b @ q" "b \<in> lang (token_rx U)"
          using has_tok_ConsD by metis
        from token_shape [OF bq(2)] bq(1) obtain b' where b': "b = c # b'" "32 \<notin> set b'"
          by (cases b) auto
        with bq(1) have "prefix b' (sub_ads U cs)" by (simp add: prefix_def)
        then have "prefix b' cs" using b'(2) by (rule sub_ads_prefix)
        then obtain q' where "c # cs = b @ q'" using b'(1) by (auto simp: prefix_def)
        moreover have "b \<in> lang (ad_rx U)" using bq(2) by (rule token_in_ad)
        ultimately show False using None unfolding match_at_None by blast
      qed
    next
      case (Some t)
      then obtain x where x: "x \<in> lang (ad_rx U)" "c # cs = x @ t" using match_at_Some by blast
      with ad_rx_nonempty [of U] have "x \<noteq> []" by auto
      then have "0 < length x" by simp
      moreover have "length (c # cs) = length x + length t" using x(2) by (metis length_append)
      ultimately have lt: "length t < length (c # cs)" by linarith
      then have sub: "sub_ads U (c # cs) = 32 # sub_ads U t" using Some by (simp add: sub_ads_Some)
      have IHt: "\<not> has_tok U (sub_ads U t)" using 1 Cons lt by simp
      show ?thesis
      proof
        assume "has_tok U (sub_ads U s)"
        with sub Cons IHt obtain b q where bq: "32 # sub_ads U t = b @ q" "b \<in> lang (token_rx U)"
          using has_tok_ConsD by metis
        from token_shape [OF bq(2)] bq(1) show False by (cases b) auto
      qed
    qed
  qed
qed

lemma sub_ads_fixed: "\<not> has_tok U s \<Longrightarrow> sub_ads U s = s"
proof (induction s)
  case Nil
  show ?case by (simp add: sub_ads_Nil)
next
  case (Cons c cs)
  have "match_at (ad_rx U) (c # cs) = None"
  proof (rule ccontr)
    assume "match_at (ad_rx U) (c # cs) \<noteq> None"
    then obtain t where "match_at (ad_rx U) (c # cs) = Some t" by auto
    then obtain x where x: "x \<in> lang (ad_rx U)" "c # cs = x @ t" using match_at_Some by blast
    from ad_has_token [OF x(1)] obtain p b q where "x = p @ b @ q" "b \<in> lang (token_rx U)" by blast
    with x(2) have "c # cs = p @ b @ (q @ t) \<and> b \<in> lang (token_rx U)" by simp
    then have "has_tok U (c # cs)" unfolding has_tok_def by blast
    with Cons.prems show False by simp
  qed
  moreover have "\<not> has_tok U cs" using Cons.prems has_tok_Cons by blast
  ultimately show ?case using Cons.IH by (simp add: sub_ads_None)
qed

lemma has_tok_sub: "has_tok U y \<Longrightarrow> has_tok U (p @ y @ q)"
proof -
  assume "has_tok U y"
  then obtain p' b q' where "y = p' @ b @ q'" "b \<in> lang (token_rx U)" unfolding has_tok_def by blast
  then have "p @ y @ q = (p @ p') @ b @ (q' @ q) \<and> b \<in> lang (token_rx U)" by simp
  then show ?thesis unfolding has_tok_def by blast
qed

lemma rev_dropWhile_decomp: "y = rev (dropWhile P (rev y)) @ rev (takeWhile P (rev y))"
proof -
  have "rev (takeWhile P (rev y) @ dropWhile P (rev y)) = y"
    by (simp only: takeWhile_dropWhile_id rev_rev_ident)
  then show ?thesis by (simp only: rev_append)
qed

lemma strip_decomp: "\<exists>p q. s = p @ strip s @ q"
proof -
  let ?y = "dropWhile is_space s"
  have "?y = strip s @ rev (takeWhile is_space (rev ?y))"
    unfolding strip_def by (rule rev_dropWhile_decomp)
  moreover have "s = takeWhile is_space s @ ?y" by simp
  ultimately show ?thesis by metis
qed

lemma dropWhile_rev_dropWhile:
  "dropWhile P (rev (dropWhile P (rev (dropWhile P s)))) = rev (dropWhile P (rev (dropWhile P s)))"
proof (cases "rev (dropWhile P (rev (dropWhile P s)))")
  case Nil
  then show ?thesis by (simp only: dropWhile.simps)
next
  case (Cons a z)
  let ?y = "dropWhile P s"
  have "?y = rev (dropWhile P (rev ?y)) @ rev (takeWhile P (rev ?y))"
    by (rule rev_dropWhile_decomp)
  with Cons have "?y = a # (z @ rev (takeWhile P (rev ?y)))" by simp
  then have "\<not> P a" by (metis hd_dropWhile list.sel(1) list.distinct(1))
  with Cons show ?thesis by simp
qed

lemma strip_strip: "strip (strip s) = strip s"
  unfolding strip_def by (simp add: dropWhile_rev_dropWhile dropWhile_idem)

lemma strip_ads_idem: "strip_ads U s = Some r \<Longrightarrow> strip_ads U r = Some r"
proof -
  assume a: "strip_ads U s = Some r"
  then have r: "r = strip (sub_ads U s)" "r \<noteq> []" by (auto simp: strip_ads_def Let_def split: if_splits)
  obtain p q where "sub_ads U s = p @ r @ q" using strip_decomp r(1) by blast
  then have "\<not> has_tok U r" using sub_ads_no_token [of U s] has_tok_sub [of U r p q] by auto
  then have "sub_ads U r = r" by (rule sub_ads_fixed)
  moreover have "strip r = r" using r(1) strip_strip by simp
  ultimately show ?thesis using r(2) by (simp add: strip_ads_def)
qed

section \<open>Claims on the utilities and the catalog\<close>

lemma endswith_iff: "endswith s e \<longleftrightarrow> (\<exists>p. s = p @ e)"
proof
  assume "endswith s e"
  then have "s = take (length s - length e) s @ e" by (metis append_take_drop_id endswith_def)
  then show "\<exists>p. s = p @ e" ..
next
  assume "\<exists>p. s = p @ e"
  then show "endswith s e" by (auto simp: endswith_def)
qed

lemma is_audio_name_iff:
  "is_audio_name U f \<longleftrightarrow> (\<exists>e \<in> set audio_extensions. \<exists>p. lower U f = p @ S e)"
  by (simp add: is_audio_name_def endswith_any_def list_ex_iff endswith_iff)

lemma is_audio_name_fun:
  "is_audio_name U = (\<lambda>file. \<exists>e \<in> set audio_extensions. \<exists>p. lower U file = p @ S e)"
  by (rule ext) (rule is_audio_name_iff)

lemma strip_ads_cell_idem:
  "(case strip_ads U x of None \<Rightarrow> Null | Some r \<Rightarrow> Str r) = Str y \<Longrightarrow>
   (case strip_ads U y of None \<Rightarrow> Null | Some r \<Rightarrow> Str r) = Str y"
  by (auto split: option.splits dest: strip_ads_idem)

lemma strip_ads_nonempty: "strip_ads U s \<noteq> Some []"
  by (simp add: strip_ads_def Let_def)

text \<open>
  Claim C7. Stripping the ad text is idempotent: applying \<open>remove_websites_and_tags\<close> to
  its own result changes nothing, for every column of cells. A result that would be the
  empty string is null, so the empty string never appears in the result.
\<close>

theorem remove_websites_and_tags_idempotent:
  "remove_websites_and_tags U (remove_websites_and_tags U data) = remove_websites_and_tags U data
   \<and> Str [] \<notin> set (remove_websites_and_tags U data)"
proof
  show "remove_websites_and_tags U (remove_websites_and_tags U data) = remove_websites_and_tags U data"
    unfolding remove_websites_and_tags_def str_map_def
    by (induction data) (auto split: cell.splits option.splits dest: strip_ads_idem)
  show "Str [] \<notin> set (remove_websites_and_tags U data)"
    unfolding remove_websites_and_tags_def str_map_def
    using strip_ads_nonempty by (auto split: cell.splits option.splits)
qed


theorem remove_websites_and_tags_idempotent_witness:
  "remove_websites_and_tags ascii_only
     (remove_websites_and_tags ascii_only [Str (S ''Pop [test.com] Rock''), Null, Str []])
   = remove_websites_and_tags ascii_only [Str (S ''Pop [test.com] Rock''), Null, Str []]
   \<and> Str [] \<notin> set (remove_websites_and_tags ascii_only [Str (S ''Pop [test.com] Rock''), Null, Str []])"
  by (rule remove_websites_and_tags_idempotent)

text \<open>
  Claim C10. Without the cache, the catalog holds, in the order of the walk, exactly the
  files whose lowercased name ends with one of the strings of \<open>audio_extensions\<close>; no dot
  is asked for, so the file \<open>trackmp3\<close> is cataloged.
\<close>

theorem extension_filter:
  "fst (get_music_addrs U walk cache False) =
     concat (map (\<lambda>(dirname, filenames). map (os_path_join dirname)
        (filter (\<lambda>file. \<exists>e \<in> set audio_extensions. \<exists>p. lower U file = p @ S e) filenames)) walk)
   \<and> fst (get_music_addrs U [(S ''/music'', [S ''trackmp3''])] cache False) = [S ''/music/trackmp3'']"
proof
  show "fst (get_music_addrs U walk cache False) =
     concat (map (\<lambda>(dirname, filenames). map (os_path_join dirname)
        (filter (\<lambda>file. \<exists>e \<in> set audio_extensions. \<exists>p. lower U file = p @ S e) filenames)) walk)"
    by (simp add: get_music_addrs_def Let_def is_audio_name_fun split: option.splits)
  have "lower U (S ''trackmp3'') = S ''trackmp3''" by (simp add: lower_def S_def ascii_lower_def)
  then have "is_audio_name U (S ''trackmp3'')"
    by (simp add: is_audio_name_def endswith_any_def endswith_def audio_extensions_def S_def)
  then show "fst (get_music_addrs U [(S ''/music'', [S ''trackmp3''])] cache False) = [S ''/music/trackmp3'']"
    by (simp add: get_music_addrs_def Let_def os_path_join_def startswith_def endswith_def S_def split: option.splits)
qed



theorem extension_filter_witness:
  "fst (get_music_addrs ascii_only [(S ''/m'', [S ''trackmp3'', S ''a.MP3'', S ''notes.txt''])] None False) =
     concat (map (\<lambda>(dirname, filenames). map (os_path_join dirname)
        (filter (\<lambda>file. \<exists>e \<in> set audio_extensions. \<exists>p. lower ascii_only file = p @ S e) filenames))
        [(S ''/m'', [S ''trackmp3'', S ''a.MP3'', S ''notes.txt''])])
   \<and> fst (get_music_addrs ascii_only [(S ''/music'', [S ''trackmp3''])] None False) = [S ''/music/trackmp3'']"
  by (rule extension_filter)

section \<open>Columns of a table\<close>

lemma S_inject [simp]: "S a = S b \<longleftrightarrow> a = b"
proof -
  have "inj (of_char :: char \<Rightarrow> nat)" by (rule injI) simp
  then show ?thesis unfolding S_def by (simp add: inj_map_eq_map)
qed

lemma S_Nil [simp]: "S s = [] \<longleftrightarrow> s = []"
  by (simp add: S_def)

lemma get_update: "get (AList.update k v r) k' = (if k' = k then v else get r k')"
  by (simp add: get_def update_conv')

lemma length_col [simp]: "length (col df k) = length df"
  by (simp add: col_def)

lemma length_set_col [simp]: "length (set_col k vs df) = min (length df) (length vs)"
  by (simp add: set_col_def)

lemma length_series_ops [simp]:
  "length (isnull s) = length s"
  "length (mask_or a b) = min (length a) (length b)"
  "length (fillna x y) = min (length x) (length y)"
  "length (set_none s m) = min (length s) (length m)"
  "length (keep_where s m) = min (length s) (length m)"
  "length (str_map f s) = length s"
  "length (apply_str_isnumeric U s) = length s"
  "length (mask_containing_regex s p) = length s"
  "length (remove_websites_and_tags U s) = length s"
  by (simp_all add: isnull_def mask_or_def fillna_def set_none_def keep_where_def str_map_def
      apply_str_isnumeric_def mask_containing_regex_def remove_websites_and_tags_def)

lemma col_set_col:
  assumes "length vs = length df"
  shows "col (set_col k vs df) k' = (if k' = k then vs else col df k')"
proof -
  have "col (set_col k vs df) k' = map (\<lambda>((i, r), v). if k' = k then v else get r k') (zip df vs)"
    by (simp add: col_def set_col_def get_update case_prod_unfold)
  also have "\<dots> = (if k' = k then map snd (zip df vs) else map (\<lambda>(i, r). get r k') (map fst (zip df vs)))"
    by (simp add: case_prod_unfold)
  also have "\<dots> = (if k' = k then vs else col df k')"
    using assms by (simp add: col_def)
  finally show ?thesis .
qed

lemma labels_set_col:
  assumes "length vs = length df"
  shows "map fst (set_col k vs df) = map fst df"
proof -
  have "map fst (set_col k vs df) = map fst (map fst (zip df vs))"
    by (simp add: set_col_def case_prod_unfold)
  then show ?thesis using assms by simp
qed

lemma rows_set_col:
  assumes "(i, r') \<in> set (set_col k vs df)"
  shows "\<exists>r v. (i, r) \<in> set df \<and> r' = AList.update k v r"
proof -
  from assms obtain r v where "((i, r), v) \<in> set (zip df vs)" "r' = AList.update k v r"
    by (auto simp: set_col_def)
  moreover from this have "(i, r) \<in> set df" by (meson set_zip_leftD)
  ultimately show ?thesis by blast
qed

section \<open>The stages of the normalization\<close>

lemma length_stages [simp]:
  "length (consolidate_date df) = length df"
  "length (filter_numeric U df) = length df"
  "length (filter_genre U df) = length df"
  "length (filter_albumartist U df) = length df"
  "length (filter_album U df) = length df"
  "length (double_check df) = length df"
  "length (clean_artist_title U df) = length df"
  by (simp_all add: consolidate_date_def filter_numeric_def filter_genre_def filter_albumartist_def
      filter_album_def double_check_def clean_artist_title_def Let_def)

lemma length_normalize [simp]: "length (normalize U df) = length df"
  by (simp add: normalize_def)

lemma labels_stages:
  "map fst (consolidate_date df) = map fst df"
  "map fst (filter_numeric U df) = map fst df"
  "map fst (filter_genre U df) = map fst df"
  "map fst (filter_albumartist U df) = map fst df"
  "map fst (filter_album U df) = map fst df"
  "map fst (double_check df) = map fst df"
  "map fst (clean_artist_title U df) = map fst df"
  by (simp_all add: consolidate_date_def filter_numeric_def filter_genre_def filter_albumartist_def
      filter_album_def double_check_def clean_artist_title_def Let_def labels_set_col)

lemma labels_normalize: "map fst (normalize U df) = map fst df"
  by (simp add: normalize_def labels_stages)

lemma col_double_check:
  "col (double_check df) (S ''album'') =
     set_none (col df (S ''album'')) (mask_or (isnull (col df (S ''album''))) (isnull (col df (S ''albumartist''))))"
  "col (double_check df) (S ''albumartist'') =
     set_none (col df (S ''albumartist'')) (mask_or (isnull (col df (S ''album''))) (isnull (col df (S ''albumartist''))))"
  by (simp_all add: double_check_def Let_def col_set_col)

lemma col_clean_artist_title:
  "k \<noteq> S ''artist'' \<Longrightarrow> k \<noteq> S ''title'' \<Longrightarrow> col (clean_artist_title U df) k = col df k"
  by (simp add: clean_artist_title_def Let_def col_set_col)

lemma null_iff_after_double_check:
  assumes "length a = length b"
  shows "list_all2 (\<lambda>x y. (x = Null) = (y = Null))
           (set_none a (mask_or (isnull a) (isnull b))) (set_none b (mask_or (isnull a) (isnull b)))"
  using assms
  by (induction a b rule: list_induct2) (simp_all add: set_none_def mask_or_def isnull_def)

lemma rows_of_cols:
  "list_all2 P (col df k1) (col df k2) \<longleftrightarrow> (\<forall>(i, r) \<in> set df. P (get r k1) (get r k2))"
  by (auto simp: col_def list_all2_map1 list_all2_map2 list_all2_same)

lemma album_iff_normalize:
  "\<forall>(i, r) \<in> set (normalize U df). (get r (S ''album'') = Null) = (get r (S ''albumartist'') = Null)"
proof -
  let ?d = "filter_album U (filter_albumartist U (filter_genre U (filter_numeric U (consolidate_date df))))"
  have "list_all2 (\<lambda>x y. (x = Null) = (y = Null))
          (col (normalize U df) (S ''album'')) (col (normalize U df) (S ''albumartist''))"
    unfolding normalize_def
    by (simp add: col_clean_artist_title col_double_check null_iff_after_double_check)
  then show ?thesis unfolding rows_of_cols .
qed

section \<open>Highlighting\<close>

lemma highlighted_rows_eq: "highlighted_rows df = map fst (filter needs_review df)"
proof -
  have m: "mask_or (isnull (col df (S ''artist''))) (isnull (col df (S ''title''))) = map needs_review df"
    by (simp add: mask_or_def isnull_def col_def zip_map_map needs_review_def case_prod_unfold
        zip_same_conv_map)
  have "highlighted_rows df = map (\<lambda>x. fst (fst x)) (filter snd (zip df (map needs_review df)))"
    by (simp add: highlighted_rows_def Let_def m case_prod_unfold)
  also have "zip df (map needs_review df) = map (\<lambda>x. (x, needs_review x)) df"
    by (simp add: zip_map2 zip_same_conv_map)
  also have "map (\<lambda>x. fst (fst x)) (filter snd (map (\<lambda>x. (x, needs_review x)) df))
      = map fst (filter needs_review df)"
    by (simp add: filter_map comp_def)
  finally show ?thesis .
qed

lemma filter_label_unique:
  assumes "distinct (map fst df)" "x \<in> set df"
  shows "filter (\<lambda>(i, r). i = fst x) df = [x]"
  using assms
proof (induction df)
  case Nil
  then show ?case by simp
next
  case (Cons y df)
  show ?case
  proof (cases "x = y")
    case True
    have "fst y \<notin> fst ` set df" using Cons.prems(1) by simp
    then have "filter (\<lambda>(i, r). i = fst y) df = []"
      by (auto simp: filter_empty_conv) (metis fst_conv image_eqI)
    with True show ?thesis by (simp add: case_prod_unfold)
  next
    case False
    with Cons.prems have "x \<in> set df" "fst y \<noteq> fst x" by auto
    with Cons show ?thesis by (simp add: case_prod_unfold)
  qed
qed

lemma loc_filter:
  assumes "distinct (map fst df)"
  shows "loc (map fst (filter P df)) df = filter P df"
proof -
  have "map (\<lambda>x. filter (\<lambda>(i, r). i = fst x) df) (filter P df) = map (\<lambda>x. [x]) (filter P df)"
  proof (rule map_cong [OF refl])
    fix x assume "x \<in> set (filter P df)"
    then have "x \<in> set df" by simp
    then show "filter (\<lambda>(i, r). i = fst x) df = [x]" by (rule filter_label_unique [OF assms])
  qed
  moreover have "loc (map fst (filter P df)) df
      = concat (map (\<lambda>x. filter (\<lambda>(i, r). i = fst x) df) (filter P df))"
    by (simp add: loc_def comp_def)
  ultimately have "loc (map fst (filter P df)) df = concat (map (\<lambda>x. [x]) (filter P df))"
    by (simp only:)
  then show ?thesis by simp
qed

lemma drop_rows_filter:
  assumes "distinct (map fst df)"
  shows "drop_rows (map fst (filter P df)) df = filter (\<lambda>x. \<not> P x) df"
proof -
  have "\<forall>x \<in> set df. (fst x \<notin> set (map fst (filter P df))) = (\<not> P x)"
  proof
    fix x assume x: "x \<in> set df"
    show "(fst x \<notin> set (map fst (filter P df))) = (\<not> P x)"
    proof (cases "P x")
      case True
      with x show ?thesis by force
    next
      case False
      have "fst x \<notin> set (map fst (filter P df))"
      proof
        assume "fst x \<in> set (map fst (filter P df))"
        then obtain y where y: "y \<in> set df" "P y" "fst y = fst x" by auto
        with assms x have "y = x" by (meson eq_key_imp_eq_value prod.collapse prod_eqI distinct_map inj_onD)
        with y False show False by simp
      qed
      with False show ?thesis by simp
    qed
  qed
  then show ?thesis unfolding drop_rows_def by (intro filter_cong) (auto simp: case_prod_unfold)
qed

lemma do_highlight_eq:
  assumes "distinct (map fst df)"
  shows "do_highlight df = (filter needs_review df @ filter (\<lambda>x. \<not> needs_review x) df,
                            map fst (filter needs_review df))"
  by (simp add: do_highlight_def Let_def highlighted_rows_eq loc_filter [OF assms] drop_rows_filter [OF assms])

lemma set_do_highlight: "set (fst (do_highlight df)) \<subseteq> set df"
  by (auto simp: do_highlight_def Let_def loc_def drop_rows_def)

lemma labels_from_records: "map fst (from_records rows) = [0..<length rows]"
  by (simp add: from_records_def)

section \<open>The numeric filter\<close>







section \<open>Claims on the normalization\<close>

lemma ex_addrs: "fst (get_music_addrs ascii_only ex_walk None False) = [S ''/m/a.mp3'']"
  by (simp add: get_music_addrs_def ex_walk_def is_audio_name_def endswith_any_def endswith_def
      audio_extensions_def lower_def ascii_lower_def os_path_join_def startswith_def S_def Let_def)

lemma ex_rows: "read_musics ex_reader [S ''/m/a.mp3''] = [ex_row]"
  by (simp add: read_musics_def ex_reader_def music_record_def must_have_keys_def first_value_def
      get_def ex_row_def)

lemma ex_norm: "normalize ascii_only (from_records [ex_row]) = ex_out"
  by (simp add: normalize_def from_records_def ex_row_def consolidate_date_def filter_numeric_def
      filter_genre_def filter_albumartist_def filter_album_def double_check_def clean_artist_title_def
      Let_def col_def set_col_def get_def fillna_def str_map_def keep_where_def apply_str_isnumeric_def
      isnumeric_def remove_char_def set_none_def mask_or_def isnull_def mask_containing_regex_def
      remove_websites_and_tags_def drop_columns_def S_def ex_out_def)

lemma ex_highlight: "do_highlight ex_out = (ex_out, [0])"
  by (simp add: do_highlight_def highlighted_rows_def loc_def drop_rows_def Let_def col_def get_def
      mask_or_def isnull_def ex_out_def S_def)

lemma ex_generate: "generate_music_info ascii_only ex_walk None ex_reader = Inr (ex_out, [0])"
proof -
  have "from_records [ex_row] \<noteq> []" by (simp add: from_records_def)
  then show ?thesis
    by (simp add: generate_music_info_def ex_addrs ex_rows ex_norm ex_highlight Let_def)
qed

lemma generate_music_info_Inr:
  assumes "generate_music_info U walk cache reader = Inr (out, h)"
  shows "(out, h) = do_highlight (normalize U (from_records (read_musics reader (fst (get_music_addrs U walk cache False)))))"
  using assms by (auto simp: generate_music_info_def Let_def split: if_splits)

text \<open>
  Claim C2. In every row of the table that a normalization run writes, \<open>album\<close> is null
  exactly when \<open>albumartist\<close> is null.
\<close>

theorem album_albumartist_both_or_none:
  assumes "generate_music_info U walk cache reader = Inr (out, h)"
  shows "\<forall>(i, r) \<in> set out. (get r (S ''album'') = Null) = (get r (S ''albumartist'') = Null)"
proof -
  let ?df = "normalize U (from_records (read_musics reader (fst (get_music_addrs U walk cache False))))"
  from generate_music_info_Inr [OF assms] have "out = fst (do_highlight ?df)" by (metis fst_conv)
  then have "set out \<subseteq> set ?df" using set_do_highlight by simp
  then show ?thesis using album_iff_normalize [of U] by blast
qed

lemma distinct_labels_normalize: "distinct (map fst (normalize U (from_records rows)))"
  by (simp add: labels_normalize labels_from_records)

text \<open>
  Claim C3. Both writers of the review table pass the table through \<open>_do_highlight\<close>:
  \<open>generate_music_info\<close> the normalized table, \<open>apply_tags\<close> the table it rebuilds with
  \<open>from_records\<close>. For either, the rows marked are exactly those whose \<open>artist\<close> or
  \<open>title\<close> is null, and the written order is the marked rows in their original order
  followed by the other rows in their original order.
\<close>

theorem persisted_highlight_order:
  assumes "df = normalize U (from_records rows) \<or> df = from_records rows"
  shows "do_highlight df = (filter needs_review df @ filter (\<lambda>x. \<not> needs_review x) df,
                            map fst (filter needs_review df))
         \<and> (\<forall>x \<in> set df. fst x \<in> set (snd (do_highlight df)) \<longleftrightarrow>
               get (snd x) (S ''artist'') = Null \<or> get (snd x) (S ''title'') = Null)"
proof -
  have d: "distinct (map fst df)"
    using assms distinct_labels_normalize by (auto simp: labels_from_records)
  have 1: "do_highlight df = (filter needs_review df @ filter (\<lambda>x. \<not> needs_review x) df,
                            map fst (filter needs_review df))"
    by (rule do_highlight_eq [OF d])
  have 2: "\<forall>x \<in> set df. fst x \<in> set (map fst (filter needs_review df)) \<longleftrightarrow> needs_review x"
  proof
    fix x assume x: "x \<in> set df"
    show "fst x \<in> set (map fst (filter needs_review df)) \<longleftrightarrow> needs_review x"
    proof
      assume "fst x \<in> set (map fst (filter needs_review df))"
      then obtain y where y: "y \<in> set df" "needs_review y" "fst y = fst x" by auto
      with d x have "y = x" by (meson distinct_map inj_onD)
      with y show "needs_review x" by simp
    next
      assume "needs_review x"
      with x show "fst x \<in> set (map fst (filter needs_review df))" by force
    qed
  qed
  show ?thesis using 1 2 by (simp add: needs_review_def)
qed

theorem album_albumartist_both_or_none_witness:
  "generate_music_info ascii_only ex_walk None ex_reader = Inr (ex_out, [0])
   \<and> (get (snd (ex_out ! 0)) (S ''album'') = Null) = (get (snd (ex_out ! 0)) (S ''albumartist'') = Null)"
proof -
  from album_albumartist_both_or_none [OF ex_generate]
  have "\<forall>(i, r) \<in> set ex_out. (get r (S ''album'') = Null) = (get r (S ''albumartist'') = Null)" .
  moreover have "ex_out ! 0 \<in> set ex_out" by (simp add: ex_out_def)
  ultimately show ?thesis using ex_generate by (auto simp: case_prod_unfold)
qed



theorem persisted_highlight_order_witness:
  "do_highlight (from_records
      [[(S ''artist'', Str (S ''A'')), (S ''title'', Str (S ''T''))],
       [(S ''artist'', Null), (S ''title'', Str (S ''V''))],
       [(S ''artist'', Str (S ''B'')), (S ''title'', Str (S ''W''))],
       [(S ''artist'', Str (S ''C'')), (S ''title'', Null)]])
   = ([(1, [(S ''artist'', Null), (S ''title'', Str (S ''V''))]),
       (3, [(S ''artist'', Str (S ''C'')), (S ''title'', Null)]),
       (0, [(S ''artist'', Str (S ''A'')), (S ''title'', Str (S ''T''))]),
       (2, [(S ''artist'', Str (S ''B'')), (S ''title'', Str (S ''W''))])], [1, 3])"
  using persisted_highlight_order [of
     "from_records
      [[(S ''artist'', Str (S ''A'')), (S ''title'', Str (S ''T''))],
       [(S ''artist'', Null), (S ''title'', Str (S ''V''))],
       [(S ''artist'', Str (S ''B'')), (S ''title'', Str (S ''W''))],
       [(S ''artist'', Str (S ''C'')), (S ''title'', Null)]]" ascii_only
      "[[(S ''artist'', Str (S ''A'')), (S ''title'', Str (S ''T''))],
       [(S ''artist'', Null), (S ''title'', Str (S ''V''))],
       [(S ''artist'', Str (S ''B'')), (S ''title'', Str (S ''W''))],
       [(S ''artist'', Str (S ''C'')), (S ''title'', Null)]]"]
  by (simp add: from_records_def needs_review_def get_def S_def upt_rec)

section \<open>The columns that are written\<close>

lemma keeps_columns_refl: "keeps_columns df df"
  by (auto simp: keeps_columns_def)

lemma keeps_columns_set_col:
  assumes "keeps_columns df d1"
  shows "keeps_columns df (set_col k vs d1)"
  unfolding keeps_columns_def
proof (clarify)
  fix i r' assume "(i, r') \<in> set (set_col k vs d1)"
  from rows_set_col [OF this] obtain r1 v where r1: "(i, r1) \<in> set d1" "r' = AList.update k v r1" by blast
  with assms obtain r where r: "(i, r) \<in> set df" "fst ` set r \<subseteq> fst ` set r1"
    unfolding keeps_columns_def by blast
  have "fst ` set r1 \<subseteq> fst ` set r'" using r1(2) by (simp add: dom_update subset_insertI)
  with r show "\<exists>r. (i, r) \<in> set df \<and> fst ` set r \<subseteq> fst ` set r'" by blast
qed

lemma keeps_columns_stages:
  assumes "keeps_columns df d1"
  shows "keeps_columns df (consolidate_date d1)"
    and "keeps_columns df (filter_numeric U d1)"
    and "keeps_columns df (filter_genre U d1)"
    and "keeps_columns df (filter_albumartist U d1)"
    and "keeps_columns df (filter_album U d1)"
    and "keeps_columns df (double_check d1)"
    and "keeps_columns df (clean_artist_title U d1)"
  unfolding consolidate_date_def filter_numeric_def filter_genre_def filter_albumartist_def
    filter_album_def double_check_def clean_artist_title_def Let_def
  by (intro keeps_columns_set_col assms)+

lemma keeps_columns_normalize: "keeps_columns df (normalize U df)"
  unfolding normalize_def by (intro keeps_columns_stages keeps_columns_refl)

lemma music_record_originaldate: "S ''originaldate'' \<in> fst ` set (music_record file a)"
  by (simp add: music_record_def must_have_keys_def Let_def)

lemma read_musics_originaldate: "r \<in> set (read_musics reader addrs) \<Longrightarrow> S ''originaldate'' \<in> fst ` set r"
  by (auto simp: read_musics_def music_record_originaldate split: option.splits)

text \<open>
  Claim C4 (not met by the code). \<open>musics.drop(columns=['originaldate'])\<close> returns a new
  table that the program does not keep, so the column stays: every row of every table that
  \<open>generate_music_info\<close> writes has the column \<open>originaldate\<close>.
\<close>

theorem originaldate_column_persisted:
  assumes "generate_music_info U walk cache reader = Inr (out, h)"
  shows "\<forall>(i, r) \<in> set out. S ''originaldate'' \<in> fst ` set r"
proof (clarify)
  fix i r assume ir: "(i, r) \<in> set out"
  let ?rows = "read_musics reader (fst (get_music_addrs U walk cache False))"
  from generate_music_info_Inr [OF assms]
  have "out = fst (do_highlight (normalize U (from_records ?rows)))" by (metis fst_conv)
  with ir set_do_highlight have "(i, r) \<in> set (normalize U (from_records ?rows))" by blast
  with keeps_columns_normalize [of "from_records ?rows" U]
  obtain r0 where r0: "(i, r0) \<in> set (from_records ?rows)" "fst ` set r0 \<subseteq> fst ` set r"
    unfolding keeps_columns_def by blast
  from r0(1) have "r0 \<in> set ?rows" unfolding from_records_def by (rule set_zip_rightD)
  from read_musics_originaldate [OF this] r0(2) show "S ''originaldate'' \<in> fst ` set r" by blast
qed

theorem originaldate_column_persisted_witness:
  "generate_music_info ascii_only ex_walk None ex_reader = Inr (ex_out, [0])
   \<and> S ''originaldate'' \<in> fst ` set (snd (ex_out ! 0))
   \<and> get (snd (ex_out ! 0)) (S ''originaldate'') = Str (S ''2020'')"
proof -
  from originaldate_column_persisted [OF ex_generate]
  have "\<forall>(i, r) \<in> set ex_out. S ''originaldate'' \<in> fst ` set r" .
  moreover have "ex_out ! 0 \<in> set ex_out" by (simp add: ex_out_def)
  ultimately have "S ''originaldate'' \<in> fst ` set (snd (ex_out ! 0))" by (auto simp: case_prod_unfold)
  moreover have "get (snd (ex_out ! 0)) (S ''originaldate'') = Str (S ''2020'')"
    by (simp add: ex_out_def get_def S_def)
  ultimately show ?thesis using ex_generate by simp
qed

section \<open>Asking and removing\<close>

lemma input_fs: "input w = (r, w1) \<Longrightarrow> fs w1 = fs w"
  by (auto simp: input_def emit_def split: list.splits)

lemma input_log: "input w = (r, w1) \<Longrightarrow> log w1 = log w @ [Input]"
  by (auto simp: input_def emit_def split: list.splits)

lemma os_remove_log: "log (os_remove E p w) = log w @ [Remove p]"
  by (simp add: os_remove_def emit_def Let_def split: option.splits node.splits)

lemma os_remove_fs:
  "fs (os_remove E p w) = (if (\<exists>t. fs w p = Some (File t)) \<and> remove_ok E p then (fs w)(p := None) else fs w)"
  by (auto simp: os_remove_def emit_def Let_def split: option.splits node.splits)

lemma rfwp_cases:
  assumes "remove_file_with_permission E file permission w = (Inr p, w')"
  obtains (sticky) "permission = Some p" "p = S ''na'' \<or> p = S ''ya''"
      "w' = (if startswith p (S ''y'') then os_remove E file w else w)"
  | (asked) w1 where "permission \<noteq> Some (S ''na'')" "permission \<noteq> Some (S ''ya'')" "input w = (Inr p, w1)"
      "w' = (if startswith p (S ''y'') then os_remove E file w1 else w1)"
proof (cases "permission \<noteq> Some (S ''na'') \<and> permission \<noteq> Some (S ''ya'')")
  case True
  with assms obtain w1 where "input w = (Inr p, w1)"
      "w' = (if startswith p (S ''y'') then os_remove E file w1 else w1)"
    by (auto simp: remove_file_with_permission_def split: prod.splits sum.splits if_splits)
  with True show ?thesis using asked by blast
next
  case False
  with assms have "permission = Some p" "p = S ''na'' \<or> p = S ''ya''"
      "w' = (if startswith p (S ''y'') then os_remove E file w else w)"
    by (auto simp: remove_file_with_permission_def split: prod.splits sum.splits if_splits option.splits)
  then show ?thesis using sticky by blast
qed

lemma rfwp_granted:
  assumes "remove_file_with_permission E file permission w = (Inr p, w')" "startswith p (S ''y'')"
  shows "log w' = log w @ (if permission = Some (S ''ya'') then [] else [Input]) @ [Remove file]"
    and "fs w' = (if (\<exists>t. fs w file = Some (File t)) \<and> remove_ok E file then (fs w)(file := None) else fs w)"
proof -
  have ny: "\<not> startswith (S ''na'') (S ''y'')" by (simp add: startswith_def S_def)
  show "log w' = log w @ (if permission = Some (S ''ya'') then [] else [Input]) @ [Remove file]"
    using assms(1)
  proof (cases rule: rfwp_cases)
    case sticky
    with assms(2) ny show ?thesis by (auto simp: os_remove_log)
  next
    case (asked w1)
    with assms(2) show ?thesis by (auto simp: os_remove_log dest: input_log)
  qed
  show "fs w' = (if (\<exists>t. fs w file = Some (File t)) \<and> remove_ok E file then (fs w)(file := None) else fs w)"
    using assms(1)
  proof (cases rule: rfwp_cases)
    case sticky
    with assms(2) show ?thesis by (simp add: os_remove_fs)
  next
    case (asked w1)
    with assms(2) input_fs [of w "Inr p" w1] show ?thesis by (simp add: os_remove_fs)
  qed
qed

lemma rfwp_denied:
  assumes "remove_file_with_permission E file permission w = (Inr p, w')" "\<not> startswith p (S ''y'')"
  shows "fs w' = fs w" and "log w' = log w @ (if permission = Some (S ''na'') then [] else [Input])"
proof -
  have yy: "startswith (S ''ya'') (S ''y'')" by (simp add: startswith_def S_def)
  show "fs w' = fs w" using assms(1)
    by (cases rule: rfwp_cases) (use assms(2) in \<open>auto dest: input_fs\<close>)
  show "log w' = log w @ (if permission = Some (S ''na'') then [] else [Input])" using assms(1)
    by (cases rule: rfwp_cases) (use assms(2) yy in \<open>auto dest: input_log\<close>)
qed

lemma rfwp_error:
  assumes "remove_file_with_permission E file permission w = (Inl e, w')"
  shows "fs w' = fs w \<and> log w' = log w @ [Input]"
  using assms
  by (auto simp: remove_file_with_permission_def split: prod.splits sum.splits if_splits option.splits
      dest: input_fs input_log)

section \<open>A run of the apply phase\<close>

lemma Path_a: "Path (S ''/m/a.mp3'') = [S ''/'', S ''m'', S ''a.mp3'']"
  by (simp add: Path_def startswith_def S_def)
lemma Path_b: "Path (S ''/m/b.mp3'') = [S ''/'', S ''m'', S ''b.mp3'']"
  by (simp add: Path_def startswith_def S_def)
lemma Path_c: "Path (S ''/m/c.mp3'') = [S ''/'', S ''m'', S ''c.mp3'']"
  by (simp add: Path_def startswith_def S_def)

lemma startswith_ya: "startswith (S ''ya'') (S ''y'')"
  by (simp add: startswith_def S_def)

lemma ex_record_lookups:
  "map_of (ex_record f) (S ''file'') = Some (Str (S f))"
  "map_of (ex_record f) (S ''title'') = Some Null"
  "map_of (ex_record f) (S ''artist'') = Some Null"
  by (simp_all add: ex_record_def)

lemma ex_record_new_tags: "new_tags (ex_record f) = []"
  by (simp add: new_tags_def ex_record_def information_columns_def truthy_def)

lemma ex_apply_addrs: "fst (get_music_addrs ascii_only [(S ''/m'', [S ''c.mp3''])] None False) = [S ''/m/c.mp3'']"
  by (simp add: get_music_addrs_def is_audio_name_def endswith_any_def endswith_def
      audio_extensions_def lower_def ascii_lower_def os_path_join_def startswith_def S_def Let_def)

lemma ex_missing:
  assumes "Path (S f) = p" "ex_fs p = None"
  shows "process_music ex_env False i (ex_record f) \<lparr>perms = ex_permissions, to_pop = tp, wld = \<lparr>fs = ex_fs, stdin = [], log = lg\<rparr>\<rparr>
   = (Next, ex_record f, \<lparr>perms = ex_permissions, to_pop = tp @ [i],
        wld = \<lparr>fs = ex_fs, stdin = [], log = lg @ [Remove p]\<rparr>\<rparr>)"
  using assms
  by (simp add: process_music_def ex_record_lookups path_exists_def not_found_def
      remove_file_with_permission_def ex_permissions_def startswith_ya os_remove_def emit_def Let_def)

lemma ex_present:
  "process_music ex_env False i (ex_record ''/m/c.mp3'') \<lparr>perms = ex_permissions, to_pop = tp, wld = \<lparr>fs = ex_fs, stdin = [], log = lg\<rparr>\<rparr>
   = (Next, ex_record ''/m/c.mp3'', \<lparr>perms = ex_permissions, to_pop = tp, wld = \<lparr>fs = ex_fs, stdin = [], log = lg\<rparr>\<rparr>)"
  by (simp add: process_music_def ex_record_lookups Path_c path_exists_def ex_fs_def new_file_name_def
      truthy_def rename_def write_tags_def ex_record_new_tags dict_eq_def Let_def)


lemma ex_fs_missing:
  "ex_fs [S ''/'', S ''m'', S ''a.mp3''] = None" "ex_fs [S ''/'', S ''m'', S ''b.mp3''] = None"
  by (simp_all add: ex_fs_def)

lemma ex_loop:
  "apply_loop ex_env False 0 (to_dict_records ex_stored) \<lparr>perms = ex_permissions, to_pop = [], wld = ex_world\<rparr>
   = ([ex_record ''/m/a.mp3'', ex_record ''/m/b.mp3'', ex_record ''/m/c.mp3''],
      \<lparr>perms = ex_permissions, to_pop = [0, 1],
       wld = \<lparr>fs = ex_fs, stdin = [], log = [Remove [S ''/'', S ''m'', S ''a.mp3''], Remove [S ''/'', S ''m'', S ''b.mp3'']]\<rparr>\<rparr>)"
  by (simp add: to_dict_records_def ex_stored_def ex_world_def
      ex_missing [OF Path_a ex_fs_missing(1)] ex_missing [OF Path_b ex_fs_missing(2)] ex_present)

lemma ex_deleted: "Str (S ''/m/c.mp3'') \<in> set (col ex_stored (S ''file''))"
  by (simp add: col_def ex_stored_def get_def ex_record_lookups)

lemma ex_pop: "pop_all [0, 1] [a, b, c] = Inr [b]"
  by simp

lemma ex_highlight_b:
  "do_highlight (from_records [ex_record ''/m/b.mp3'']) = ([(0, ex_record ''/m/b.mp3'')], [0])"
  by (simp add: do_highlight_def highlighted_rows_def loc_def drop_rows_def Let_def col_def get_def
      mask_or_def isnull_def from_records_def ex_record_lookups)

text \<open>
  Claim C1 (not met by the code). The table written back should be the loaded table
  without exactly the records marked for removal. The indices in \<open>to_pop\<close> are ascending
  and each \<open>pop\<close> shifts the records behind it, so from the second marked record on the
  wrong record goes (or the index is out of range). In the run below the records of
  \<open>a.mp3\<close> and \<open>b.mp3\<close> are marked; the table written back holds the record of
  \<open>b.mp3\<close>, and the record of \<open>c.mp3\<close>, which was not marked, is gone.
\<close>

theorem apply_tags_keeps_marked_record:
  "apply_tags ex_env (Some ex_stored) ex_permissions False ex_world =
     (Inr ([(0, ex_record ''/m/b.mp3'')], [0]),
      \<lparr>fs = ex_fs, stdin = [], log = [Remove [S ''/'', S ''m'', S ''a.mp3''], Remove [S ''/'', S ''m'', S ''b.mp3'']]\<rparr>)"
proof -
  have e: "uni ex_env = ascii_only" "os_walk ex_env = [(S ''/m'', [S ''c.mp3''])]"
    by (simp_all add: ex_env_def)
  have p: "ex_permissions\<lparr>remove_deleted := None\<rparr> = ex_permissions"
    by (simp add: ex_permissions_def)
  show ?thesis
    by (simp add: apply_tags_def e ex_apply_addrs ex_deleted ex_permissions_def [THEN arg_cong, of remove_deleted]
        p ex_loop ex_pop ex_highlight_b Let_def)
qed








section \<open>Granted removals\<close>

lemma process_music_collision:
  assumes "map_of music (S ''file'') = Some (Str file)" "path_exists (wld st) (Path file)"
    "(if am then merge_miscellaneous E music else Some music) = Some music1"
    "new_file_name E (wld st) (Path file) music1 = Inr Collision"
  shows "process_music E am i music st =
           (case rename_error E i (Path file) st of (c, st1) \<Rightarrow> (c, music1, st1))"
  using assms by (simp add: process_music_def Let_def)

lemma write_tags_permission_error:
  assumes "fs (wld st) f = Some (File (Some old))" "\<not> dict_eq old (new_tags music)"
    "save_result E f = SavePermissionError"
  shows "write_tags E i f music st =
           edit_error E i f (st\<lparr>wld := emit (Save f) (emit (Update f (new_tags music)) (emit (Clear f) (wld st)))\<rparr>)"
  using assms by (simp add: write_tags_def Let_def)

lemma emit_fs [simp]: "fs (emit e w) = fs w"
  by (simp add: emit_def)

lemma emit_log [simp]: "log (emit e w) = log w @ [e]"
  by (simp add: emit_def)




section \<open>Writing the tags\<close>






lemma write_tags_same:
  assumes "fs (wld st) f = Some (File (Some old))" "dict_eq old (new_tags music)"
  shows "write_tags E i f music st = (Next, st)"
  using assms by (simp add: write_tags_def)

lemma write_tags_ok:
  assumes "fs (wld st) f = Some (File (Some old))" "\<not> dict_eq old (new_tags music)"
    "save_result E f = SaveOk"
  shows "write_tags E i f music st =
     (Next, st\<lparr>wld := (wld st)\<lparr>log := log (wld st) @ [Clear f, Update f (new_tags music), Save f],
                               fs := (fs (wld st))(f \<mapsto> File (Some (new_tags music)))\<rparr>\<rparr>)"
  using assms by (simp add: write_tags_def Let_def emit_def)





section \<open>The new name of a file\<close>

lemma rfwp_log_events:
  assumes "remove_file_with_permission E f permission w = (r, w')"
  shows "set (log w') \<subseteq> set (log w) \<union> {Input, Remove f}"
proof (cases r)
  case (Inl e)
  with assms rfwp_error [of E f permission w e w'] show ?thesis by auto
next
  case (Inr p)
  show ?thesis
  proof (cases "startswith p (S ''y'')")
    case True
    with assms Inr rfwp_granted(1) [of E f permission w p w'] show ?thesis by auto
  next
    case False
    with assms Inr rfwp_denied(2) [of E f permission w p w'] show ?thesis by auto
  qed
qed

lemma rename_error_wld:
  assumes "rename_error E i f st = (c, st')"
  shows "\<exists>r. remove_file_with_permission E f (remove_rename_error (perms st)) (wld st) = (r, wld st')"
  using assms by (auto simp: rename_error_def split: prod.splits sum.splits)

lemma edit_error_wld:
  assumes "edit_error E i f st = (c, st')"
  shows "\<exists>r. remove_file_with_permission E f (remove_edit_error (perms st)) (wld st) = (r, wld st')"
  using assms by (auto simp: edit_error_def split: prod.splits sum.splits)

lemma rename_log:
  assumes "rename E f n music w = (f1, music2, w1)"
  shows "log w1 = log w @ (if n \<noteq> f then [Rename f n] else [])"
  using assms by (auto simp: rename_def Let_def split: if_splits)

lemma write_tags_log_events:
  assumes "write_tags E i f music st = (c, st')"
  shows "set (log (wld st')) \<subseteq> set (log (wld st)) \<union> {Clear f, Update f (new_tags music), Save f, Input, Remove f}"
proof (cases "\<exists>old. fs (wld st) f = Some (File (Some old))")
  case False
  with assms have "st' = st" by (auto simp: write_tags_def split: option.splits node.splits)
  then show ?thesis by auto
next
  case True
  then obtain old where old: "fs (wld st) f = Some (File (Some old))" by blast
  show ?thesis
  proof (cases "dict_eq old (new_tags music)")
    case True
    with assms write_tags_same [OF old True] show ?thesis by auto
  next
    case ne: False
    let ?st1 = "st\<lparr>wld := emit (Save f) (emit (Update f (new_tags music)) (emit (Clear f) (wld st)))\<rparr>"
    show ?thesis
    proof (cases "save_result E f")
      case SaveOk
      with assms write_tags_ok [OF old ne SaveOk] show ?thesis by auto
    next
      case SavePermissionError
      with assms write_tags_permission_error [OF old ne SavePermissionError]
      have "edit_error E i f ?st1 = (c, st')" by simp
      from edit_error_wld [OF this] rfwp_log_events show ?thesis by fastforce
    next
      case SaveOtherError
      with assms old ne show ?thesis by (auto simp: write_tags_def Let_def)
    qed
  qed
qed

lemma new_file_name_cases:
  assumes "map_of music (S ''title'') = Some title" "map_of music (S ''artist'') = Some artist"
    "truthy title" "truthy artist"
  shows "new_file_name E w f music =
     (if gen_new_file_name f (fmt E title) = f \<or> \<not> path_exists w (gen_new_file_name f (fmt E title))
      then Inr (Target (gen_new_file_name f (fmt E title)))
      else if gen_new_file_name f (fmt E artist @ S ''-'' @ fmt E title) = f
              \<or> \<not> path_exists w (gen_new_file_name f (fmt E artist @ S ''-'' @ fmt E title))
           then Inr (Target (gen_new_file_name f (fmt E artist @ S ''-'' @ fmt E title)))
           else Inr Collision)"
  using assms by (simp add: new_file_name_def Let_def)

lemma process_music_target:
  assumes "map_of music (S ''file'') = Some (Str file)" "path_exists (wld st) (Path file)"
    "(if am then merge_miscellaneous E music else Some music) = Some music1"
    "new_file_name E (wld st) (Path file) music1 = Inr (Target n)"
  shows "process_music E am i music st =
     (let (f1, music2, w1) = rename E (Path file) n music1 (wld st);
          (c, st1) = write_tags E i f1 music2 (st\<lparr>wld := w1\<rparr>)
      in (c, music2, st1))"
  using assms by (simp add: process_music_def Let_def)

lemma target_no_new_rename:
  assumes fl: "map_of music (S ''file'') = Some (Str file)" and ex: "path_exists (wld st) (Path file)"
    and m1: "(if am then merge_miscellaneous E music else Some music) = Some music1"
    and nf: "new_file_name E (wld st) (Path file) music1 = Inr (Target n)"
    and run: "process_music E am i music st = (c, music', st')"
    and r: "Rename x y \<in> set (log (wld st'))"
  shows "Rename x y \<in> set (log (wld st)) \<or> (x = Path file \<and> y = n \<and> y \<noteq> Path file)"
proof -
  obtain f1 music2 w1 where rn: "rename E (Path file) n music1 (wld st) = (f1, music2, w1)"
    by (cases "rename E (Path file) n music1 (wld st)") auto
  obtain c1 st1 where wt: "write_tags E i f1 music2 (st\<lparr>wld := w1\<rparr>) = (c1, st1)"
    by (cases "write_tags E i f1 music2 (st\<lparr>wld := w1\<rparr>)") auto
  from process_music_target [OF fl ex m1 nf, of i] rn wt run have "st' = st1" by simp
  with write_tags_log_events [OF wt] r have "Rename x y \<in> set (log w1)" by auto
  with rename_log [OF rn] show ?thesis by (auto split: if_splits)
qed

lemma collision_asks:
  assumes fl: "map_of music (S ''file'') = Some (Str file)" and ex: "path_exists (wld st) (Path file)"
    and m1: "(if am then merge_miscellaneous E music else Some music) = Some music1"
    and nf: "new_file_name E (wld st) (Path file) music1 = Inr Collision"
    and run: "process_music E am i music st = (c, music', st')"
  shows "(c, st') = rename_error E i (Path file) st"
    and "\<exists>r. remove_file_with_permission E (Path file) (remove_rename_error (perms st)) (wld st) = (r, wld st')"
    and "Rename x y \<in> set (log (wld st')) \<Longrightarrow> Rename x y \<in> set (log (wld st))"
proof -
  from process_music_collision [OF fl ex m1 nf, of i] run
  show re: "(c, st') = rename_error E i (Path file) st" by (auto split: prod.splits)
  then have "rename_error E i (Path file) st = (c, st')" by simp
  from rename_error_wld [OF this]
  show w: "\<exists>r. remove_file_with_permission E (Path file) (remove_rename_error (perms st)) (wld st) = (r, wld st')" .
  assume "Rename x y \<in> set (log (wld st'))"
  with w rfwp_log_events show "Rename x y \<in> set (log (wld st))" by fastforce
qed

text \<open>
  Claim C6. For a record whose file exists and whose title and artist are both present:
  the first candidate is built from the title alone; it is taken unless another file is
  already at that path, in which case the candidate built from artist and title is tried;
  if that path too is held by another file, nothing is renamed and the permission
  \<open>remove_rename_error\<close> is asked for the record's file. The pass renames at most once,
  and only to one of these two names.
\<close>

theorem at_most_two_name_candidates:
  assumes fl: "map_of music (S ''file'') = Some (Str file)" and ex: "path_exists (wld st) (Path file)"
    and m1: "(if am then merge_miscellaneous E music else Some music) = Some music1"
    and t: "map_of music1 (S ''title'') = Some title" "truthy title"
    and a: "map_of music1 (S ''artist'') = Some artist" "truthy artist"
    and n1: "n1 = gen_new_file_name (Path file) (fmt E title)"
    and n2: "n2 = gen_new_file_name (Path file) (fmt E artist @ S ''-'' @ fmt E title)"
    and run: "process_music E am i music st = (c, music', st')"
  shows "new_file_name E (wld st) (Path file) music1 =
           (if n1 = Path file \<or> \<not> path_exists (wld st) n1 then Inr (Target n1)
            else if n2 = Path file \<or> \<not> path_exists (wld st) n2 then Inr (Target n2)
            else Inr Collision)
     \<and> (n1 \<noteq> Path file \<and> path_exists (wld st) n1 \<and> n2 \<noteq> Path file \<and> path_exists (wld st) n2 \<longrightarrow>
          (c, st') = rename_error E i (Path file) st
          \<and> (\<exists>r. remove_file_with_permission E (Path file) (remove_rename_error (perms st)) (wld st)
                   = (r, wld st'))
          \<and> (\<forall>x y. Rename x y \<in> set (log (wld st')) \<longrightarrow> Rename x y \<in> set (log (wld st))))
     \<and> (\<forall>x y. Rename x y \<in> set (log (wld st')) \<longrightarrow>
          Rename x y \<in> set (log (wld st)) \<or> (x = Path file \<and> (y = n1 \<or> y = n2) \<and> y \<noteq> Path file))
     \<and> (\<forall>s. title = Str s \<longrightarrow>
          n1 = joinpath (parent (Path file)) (filter (\<lambda>c. \<not> illegal c) (s @ path_suffix (Path file))))"
proof -
  have nf: "new_file_name E (wld st) (Path file) music1 =
           (if n1 = Path file \<or> \<not> path_exists (wld st) n1 then Inr (Target n1)
            else if n2 = Path file \<or> \<not> path_exists (wld st) n2 then Inr (Target n2)
            else Inr Collision)"
    unfolding n1 n2 by (rule new_file_name_cases [OF t(1) a(1) t(2) a(2)])
  have col: "n1 \<noteq> Path file \<and> path_exists (wld st) n1 \<and> n2 \<noteq> Path file \<and> path_exists (wld st) n2 \<longrightarrow>
          (c, st') = rename_error E i (Path file) st
          \<and> (\<exists>r. remove_file_with_permission E (Path file) (remove_rename_error (perms st)) (wld st)
                   = (r, wld st'))
          \<and> (\<forall>x y. Rename x y \<in> set (log (wld st')) \<longrightarrow> Rename x y \<in> set (log (wld st)))"
  proof
    assume c: "n1 \<noteq> Path file \<and> path_exists (wld st) n1 \<and> n2 \<noteq> Path file \<and> path_exists (wld st) n2"
    with nf have "new_file_name E (wld st) (Path file) music1 = Inr Collision" by simp
    from collision_asks [OF fl ex m1 this run]
    show "(c, st') = rename_error E i (Path file) st
          \<and> (\<exists>r. remove_file_with_permission E (Path file) (remove_rename_error (perms st)) (wld st)
                   = (r, wld st'))
          \<and> (\<forall>x y. Rename x y \<in> set (log (wld st')) \<longrightarrow> Rename x y \<in> set (log (wld st)))"
      by blast
  qed
  have ren: "\<forall>x y. Rename x y \<in> set (log (wld st')) \<longrightarrow>
          Rename x y \<in> set (log (wld st)) \<or> (x = Path file \<and> (y = n1 \<or> y = n2) \<and> y \<noteq> Path file)"
  proof (intro allI impI)
    fix x y assume r: "Rename x y \<in> set (log (wld st'))"
    consider (one) "new_file_name E (wld st) (Path file) music1 = Inr (Target n1)"
      | (two) "new_file_name E (wld st) (Path file) music1 = Inr (Target n2)"
      | (none) "new_file_name E (wld st) (Path file) music1 = Inr Collision"
      using nf by (auto split: if_splits)
    then show "Rename x y \<in> set (log (wld st)) \<or> (x = Path file \<and> (y = n1 \<or> y = n2) \<and> y \<noteq> Path file)"
    proof cases
      case one
      from target_no_new_rename [OF fl ex m1 one run r] show ?thesis by blast
    next
      case two
      from target_no_new_rename [OF fl ex m1 two run r] show ?thesis by blast
    next
      case none
      from collision_asks(3) [OF fl ex m1 none run r] show ?thesis by blast
    qed
  qed
  have ttl: "\<forall>s. title = Str s \<longrightarrow>
          n1 = joinpath (parent (Path file)) (filter (\<lambda>c. \<not> illegal c) (s @ path_suffix (Path file)))"
    by (simp add: n1 gen_new_file_name_def fmt_def)
  from nf col ren ttl show ?thesis by blast
qed

lemma ex_n1: "gen_new_file_name [S ''/'', S ''m'', S ''c.mp3''] (S ''Song'') = [S ''/'', S ''m'', S ''Song.mp3'']"
  by (simp add: gen_new_file_name_def parent_def has_name_def path_suffix_def name_def joinpath_def
      Path_def startswith_def illegal_def S_def Let_def)

lemma ex_n2: "gen_new_file_name [S ''/'', S ''m'', S ''c.mp3''] (S ''Artist'' @ S ''-'' @ S ''Song'')
    = [S ''/'', S ''m'', S ''Artist-Song.mp3'']"
  by (simp add: gen_new_file_name_def parent_def has_name_def path_suffix_def name_def joinpath_def
      Path_def startswith_def illegal_def S_def Let_def)

lemma ex_song_lookups:
  "map_of ex_song (S ''file'') = Some (Str (S ''/m/c.mp3''))"
  "map_of ex_song (S ''title'') = Some (Str (S ''Song''))"
  "map_of ex_song (S ''artist'') = Some (Str (S ''Artist''))"
  by (simp_all add: ex_song_def ex_titled_def ex_record_def)

lemma ex_crowded_exists:
  "path_exists ex_crowded [S ''/'', S ''m'', S ''c.mp3'']"
  "path_exists ex_crowded [S ''/'', S ''m'', S ''Song.mp3'']"
  "path_exists ex_crowded [S ''/'', S ''m'', S ''Artist-Song.mp3'']"
  by (simp_all add: path_exists_def ex_crowded_def)

lemma ex_rename_error:
  "rename_error ex_env 2 [S ''/'', S ''m'', S ''c.mp3''] \<lparr>perms = ex_permissions, to_pop = [], wld = ex_crowded\<rparr>
   = (Next, \<lparr>perms = ex_permissions\<lparr>remove_rename_error := Some (S ''n'')\<rparr>, to_pop = [],
             wld = ex_crowded\<lparr>stdin := [], log := [Input]\<rparr>\<rparr>)"
  by (simp add: rename_error_def remove_file_with_permission_def ex_permissions_def input_def
      ex_crowded_def emit_def startswith_def) (simp add: S_def)


theorem at_most_two_name_candidates_witness:
  "new_file_name ex_env ex_crowded [S ''/'', S ''m'', S ''c.mp3''] ex_song = Inr Collision
   \<and> fst (process_music ex_env False 2 ex_song \<lparr>perms = ex_permissions, to_pop = [], wld = ex_crowded\<rparr>) = Next
   \<and> snd (snd (process_music ex_env False 2 ex_song \<lparr>perms = ex_permissions, to_pop = [], wld = ex_crowded\<rparr>))
       = \<lparr>perms = ex_permissions\<lparr>remove_rename_error := Some (S ''n'')\<rparr>, to_pop = [],
          wld = ex_crowded\<lparr>stdin := [], log := [Input]\<rparr>\<rparr>"
proof -
  let ?c = "[S ''/'', S ''m'', S ''c.mp3'']"
  let ?st = "\<lparr>perms = ex_permissions, to_pop = [], wld = ex_crowded\<rparr>"
  let ?run = "process_music ex_env False 2 ex_song ?st"
  have fl: "map_of ex_song (S ''file'') = Some (Str (S ''/m/c.mp3''))" by (rule ex_song_lookups)
  have ex: "path_exists (wld ?st) (Path (S ''/m/c.mp3''))" by (simp add: Path_c ex_crowded_exists)
  have m1: "(if False then merge_miscellaneous ex_env ex_song else Some ex_song) = Some ex_song" by simp
  have tr: "truthy (Str (S ''Song''))" "truthy (Str (S ''Artist''))" by (simp_all add: truthy_def)
  have n1: "[S ''/'', S ''m'', S ''Song.mp3''] = gen_new_file_name (Path (S ''/m/c.mp3'')) (fmt ex_env (Str (S ''Song'')))"
    by (simp add: Path_c fmt_def ex_n1)
  have n2: "[S ''/'', S ''m'', S ''Artist-Song.mp3''] =
      gen_new_file_name (Path (S ''/m/c.mp3'')) (fmt ex_env (Str (S ''Artist'')) @ S ''-'' @ fmt ex_env (Str (S ''Song'')))"
    by (simp add: Path_c fmt_def ex_n2)
  have run: "?run = (fst ?run, fst (snd ?run), snd (snd ?run))" by simp
  note th = at_most_two_name_candidates [OF fl ex m1 ex_song_lookups(2) tr(1) ex_song_lookups(3) tr(2) n1 n2 run]
  from th have nf: "new_file_name ex_env (wld ?st) (Path (S ''/m/c.mp3'')) ex_song =
       (if [S ''/'', S ''m'', S ''Song.mp3''] = Path (S ''/m/c.mp3'') \<or> \<not> path_exists (wld ?st) [S ''/'', S ''m'', S ''Song.mp3'']
        then Inr (Target [S ''/'', S ''m'', S ''Song.mp3''])
        else if [S ''/'', S ''m'', S ''Artist-Song.mp3''] = Path (S ''/m/c.mp3'') \<or> \<not> path_exists (wld ?st) [S ''/'', S ''m'', S ''Artist-Song.mp3'']
             then Inr (Target [S ''/'', S ''m'', S ''Artist-Song.mp3''])
             else Inr Collision)"
    by blast
  then have 1: "new_file_name ex_env ex_crowded ?c ex_song = Inr Collision"
    by (simp add: Path_c ex_crowded_exists)
  have pre: "[S ''/'', S ''m'', S ''Song.mp3''] \<noteq> Path (S ''/m/c.mp3'') \<and> path_exists (wld ?st) [S ''/'', S ''m'', S ''Song.mp3'']
     \<and> [S ''/'', S ''m'', S ''Artist-Song.mp3''] \<noteq> Path (S ''/m/c.mp3'') \<and> path_exists (wld ?st) [S ''/'', S ''m'', S ''Artist-Song.mp3'']"
    by (simp add: Path_c ex_crowded_exists)
  with th have "(fst ?run, snd (snd ?run)) = rename_error ex_env 2 (Path (S ''/m/c.mp3'')) ?st" by blast
  then have "(fst ?run, snd (snd ?run)) =
      (Next, \<lparr>perms = ex_permissions\<lparr>remove_rename_error := Some (S ''n'')\<rparr>, to_pop = [],
             wld = ex_crowded\<lparr>stdin := [], log := [Input]\<rparr>\<rparr>)"
    by (simp only: Path_c ex_rename_error)
  then have 2: "fst ?run = Next" and 3: "snd (snd ?run) =
       \<lparr>perms = ex_permissions\<lparr>remove_rename_error := Some (S ''n'')\<rparr>, to_pop = [],
          wld = ex_crowded\<lparr>stdin := [], log := [Input]\<rparr>\<rparr>"
    by (simp_all only: prod.inject)
  from 1 2 3 show ?thesis by blast
qed

end
